theory Spec2Isabelle
  imports Main
begin

section \<open>Values: identities and mirror keys\<close>

text \<open>
  An identity is what \<open>extractField(document, idField)\<close> returns: a JavaScript number or
  string. The numbers of the model are the safe integers, from \<open>-(2^53 - 1)\<close> to
  \<open>2^53 - 1\<close>: each of them is a JavaScript number, and JavaScript prints it with all its
  decimal digits. Other numbers (fractions, larger values, NaN) are not in the model.
  \<open>safeInteger n\<close> is the number \<open>n\<close>, for \<open>n\<close> in that range.
\<close>

typedef safe_integer = "{n :: int. - 9007199254740991 \<le> n \<and> n \<le> 9007199254740991}"
  morphisms integerValue safeInteger
  by (rule exI [of _ 0]) simp

datatype ident = IdNum safe_integer | IdStr string

definition digit_char :: "nat \<Rightarrow> char" where
  "digit_char n = ''0123456789'' ! n"

function numberToString_nat :: "nat \<Rightarrow> string" where
  "numberToString_nat n =
     (if n < 10 then [digit_char n]
      else numberToString_nat (n div 10) @ [digit_char (n mod 10)])"
  by pat_completeness auto
termination
  by (relation "measure id") auto

definition numberToString :: "safe_integer \<Rightarrow> string" where
  "numberToString x =
     (let i = integerValue x
      in if i < 0 then CHR ''-'' # numberToString_nat (nat (- i)) else numberToString_nat (nat i))"

text \<open>
  The mirror is a plain object \<open>{ [key: string]: T }\<close>: every value used in
  \<open>documentById[id]\<close>, \<open>byId[id] = doc\<close> or \<open>delete map[key]\<close> is first converted to a
  property key, which for numbers and strings is their string representation.
\<close>

fun toPropertyKey :: "ident \<Rightarrow> string" where
  "toPropertyKey (IdStr s) = s"
| "toPropertyKey (IdNum n) = numberToString n"

section \<open>Plain objects\<close>

text \<open>
  What reading a property can yield: nothing, null, one of the caller's documents, or
  some other value, of which the model keeps whether it is truthy and a name. The
  tests the hook applies to such a value are \<open>== null\<close> and truthiness.
\<close>

datatype 'doc jsvalue = Undefined | Null | Document 'doc | Other bool string

fun nullish :: "'doc jsvalue \<Rightarrow> bool" where
  "nullish Undefined = True"
| "nullish Null = True"
| "nullish v = False"

fun truthy :: "'doc jsvalue \<Rightarrow> bool" where
  "truthy (Document d) = True"
| "truthy (Other b name) = b"
| "truthy v = False"

text \<open>
  The mirror objects are created by \<open>{}\<close>: their prototype is \<open>Object.prototype\<close>, whose
  members every one of them inherits. All the members are functions but \<open>__proto__\<close>,
  an accessor that reads and sets the prototype of the object it is used on.
\<close>

definition objectPrototypeNames :: "string list" where
  "objectPrototypeNames =
     [''constructor'', ''__defineGetter__'', ''__defineSetter__'', ''hasOwnProperty'',
      ''__lookupGetter__'', ''__lookupSetter__'', ''isPrototypeOf'', ''propertyIsEnumerable'',
      ''toString'', ''valueOf'', ''__proto__'', ''toLocaleString'']"

definition objectPrototypeMember :: "string \<Rightarrow> 'doc jsvalue" where
  "objectPrototypeMember k =
     (if k \<in> set objectPrototypeNames \<and> k \<noteq> ''__proto__''
      then Other True (''Object.prototype.'' @ k) else Undefined)"

text \<open>A key that is not the name of a member of \<open>Object.prototype\<close>.\<close>

definition ordinary_key :: "string \<Rightarrow> bool" where
  "ordinary_key k = (k \<notin> set objectPrototypeNames)"

text \<open>
  A mirror object: its own properties, which hold documents, and its prototype, which is
  \<open>Object.prototype\<close> (\<open>None\<close>) until a document is assigned to \<open>__proto__\<close>.
\<close>

record 'doc mirror_object =
  own :: "string \<rightharpoonup> 'doc"
  prototype :: "'doc option"

definition emptyObject :: "'doc mirror_object" where
  "emptyObject = \<lparr>own = Map.empty, prototype = None\<rparr>"

section \<open>Options and the External Index Service\<close>

text \<open>
  \<open>options.idField || MiniSearch.getDefault('idField')\<close> and the same for \<open>extractField\<close>
  are resolved once; the resolved pair is a parameter of every operation. Documents are
  objects of the caller's type \<open>'doc\<close> (never \<open>null\<close>, \<open>undefined\<close> or another falsy value),
  and they are plain data objects: writable data properties, none of them named
  \<open>__proto__\<close>, and the prototype \<open>Object.prototype\<close>. \<open>fieldOf\<close> is not an option of the
  hook: it gives the own properties of a document, which the hook can come to read when
  a document has become the prototype of a mirror object.
\<close>

record 'doc options =
  idField :: string
  extractField :: "'doc \<Rightarrow> string \<Rightarrow> ident"
  fieldOf :: "'doc \<Rightarrow> string \<Rightarrow> 'doc jsvalue option"

definition identityOf :: "'doc options \<Rightarrow> 'doc \<Rightarrow> ident" where
  "identityOf opts document = extractField opts document (idField opts)"

definition keyOf :: "'doc options \<Rightarrow> 'doc \<Rightarrow> string" where
  "keyOf opts document = toPropertyKey (identityOf opts document)"

text \<open>
  \<open>object[key]\<close>: the own property, or else what the prototype chain gives. With
  \<open>Object.prototype\<close> as prototype that is one of its members or nothing; with a document
  as prototype it is a property of that document or, again, a member of
  \<open>Object.prototype\<close>. \<open>__proto__\<close> reads the prototype itself.
\<close>

definition getProperty :: "'doc options \<Rightarrow> 'doc mirror_object \<Rightarrow> string \<Rightarrow> 'doc jsvalue" where
  "getProperty opts object k =
     (case own object k of
        Some d \<Rightarrow> Document d
      | None \<Rightarrow>
          (case prototype object of
             None \<Rightarrow>
               (if k = ''__proto__'' then Other True ''Object.prototype''
                else objectPrototypeMember k)
           | Some p \<Rightarrow>
               (if k = ''__proto__'' then Document p
                else (case fieldOf opts p k of
                        Some v \<Rightarrow> v
                      | None \<Rightarrow> objectPrototypeMember k))))"

text \<open>
  \<open>object[key] = document\<close>: an own property is created or overwritten, except that the
  assignment to \<open>__proto__\<close> runs the accessor: the document becomes the prototype and no
  property is created.
\<close>

definition setProperty :: "'doc mirror_object \<Rightarrow> string \<Rightarrow> 'doc \<Rightarrow> 'doc mirror_object" where
  "setProperty object k document =
     (if k = ''__proto__'' \<and> own object k = None
      then object\<lparr>prototype := Some document\<rparr>
      else object\<lparr>own := (own object)(k \<mapsto> document)\<rparr>)"

text \<open>\<open>delete object[key]\<close> removes an own property and nothing else.\<close>

definition deleteProperty :: "'doc mirror_object \<Rightarrow> string \<Rightarrow> 'doc mirror_object" where
  "deleteProperty object k = object\<lparr>own := (own object)(k := None)\<rparr>"

text \<open>
  The MiniSearch instance is a collaborator whose code is not part of this repository.
  It is a parameter: a state of type \<open>'ix\<close> and the operations the hook calls on it. A
  call either completes (\<open>Done\<close>) or throws (\<open>Failed\<close>); in both cases it leaves an
  index state behind. A search hit carries the identity of the document and opaque
  score and match metadata. \<open>remove\<close> is handed whatever the hook has read from the
  mirror, which need not be a document.
\<close>

type_synonym index_error = string

datatype 'ix index_result = Done 'ix | Failed index_error 'ix

record 'm SearchResult =
  sr_id :: ident
  sr_meta :: 'm

record ('ix, 'doc, 'so, 'm, 'sg) index_service =
  indexAdd :: "'ix \<Rightarrow> 'doc \<Rightarrow> 'ix index_result"
  indexAddAll :: "'ix \<Rightarrow> 'doc list \<Rightarrow> 'ix index_result"
  indexAddAllAsync :: "'ix \<Rightarrow> 'doc list \<Rightarrow> nat option \<Rightarrow> 'ix index_result"
  indexRemove :: "'ix \<Rightarrow> 'doc jsvalue \<Rightarrow> 'ix index_result"
  indexRemoveAll :: "'ix \<Rightarrow> 'doc list option \<Rightarrow> 'ix index_result"
  indexSearch :: "'ix \<Rightarrow> string \<Rightarrow> 'so option \<Rightarrow> index_error + 'm SearchResult list"
  indexSuggest :: "'ix \<Rightarrow> string \<Rightarrow> 'so option \<Rightarrow> index_error + 'sg list"

section \<open>The state of one hook instance\<close>

text \<open>
  \<open>documentByIdRef.current\<close> refers to a mutable object, and every render copies that
  reference into the constant \<open>documentById\<close> which the functions created by that render
  close over. Both references are kept, with an explicit store \<open>objs\<close> from object
  addresses to mirror objects; \<open>nextObj\<close> is the next unused address. The remaining
  fields are the React state cells; a materialised result slot holds what the lookup
  yielded.
\<close>

record ('ix, 'doc, 'm, 'sg) state =
  miniSearch :: 'ix
  objs :: "nat \<Rightarrow> 'doc mirror_object"
  nextObj :: nat
  documentByIdRef :: nat
  documentById :: nat
  rawResults :: "'m SearchResult list option"
  searchResults :: "'doc jsvalue list option"
  suggestions :: "'sg list option"
  isIndexing :: bool

text \<open>
  The object \<open>documentByIdRef.current\<close> refers to, and the Mirror Store: the entries
  (own properties) of that object.
\<close>

definition mirrorObject :: "('ix, 'doc, 'm, 'sg) state \<Rightarrow> 'doc mirror_object" where
  "mirrorObject st = objs st (documentByIdRef st)"

definition mirrorStore :: "('ix, 'doc, 'm, 'sg) state \<Rightarrow> (string \<rightharpoonup> 'doc)" where
  "mirrorStore st = own (objs st (documentByIdRef st))"

text \<open>
  The object the functions of the current render read through \<open>documentById\<close>, and its
  entries.
\<close>

definition capturedObject :: "('ix, 'doc, 'm, 'sg) state \<Rightarrow> 'doc mirror_object" where
  "capturedObject st = objs st (documentById st)"

definition capturedStore :: "('ix, 'doc, 'm, 'sg) state \<Rightarrow> (string \<rightharpoonup> 'doc)" where
  "capturedStore st = own (objs st (documentById st))"

text \<open>
  A render: the hook body runs again and \<open>documentById\<close> is read from the ref. The
  functions a caller uses are those of the latest render.
\<close>

definition rerender :: "('ix, 'doc, 'm, 'sg) state \<Rightarrow> ('ix, 'doc, 'm, 'sg) state" where
  "rerender st = st\<lparr>documentById := documentByIdRef st\<rparr>"

datatype error = NotFound ident | IndexOperationFailure index_error

datatype 'st result = Returned 'st | Threw error 'st

fun state_of :: "'st result \<Rightarrow> 'st" where
  "state_of (Returned st) = st"
| "state_of (Threw e st) = st"

text \<open>
  A call on the index: the index state left behind is stored, and an exception of the
  index leaves the calling function at once.
\<close>

definition afterIndex ::
  "('ix, 'doc, 'm, 'sg) state \<Rightarrow> 'ix index_result \<Rightarrow>
   (('ix, 'doc, 'm, 'sg) state \<Rightarrow> ('ix, 'doc, 'm, 'sg) state) \<Rightarrow>
   ('ix, 'doc, 'm, 'sg) state result" where
  "afterIndex st r rest =
     (case r of
        Done ix \<Rightarrow> Returned (rest (st\<lparr>miniSearch := ix\<rparr>))
      | Failed e ix \<Rightarrow> Threw (IndexOperationFailure e) (st\<lparr>miniSearch := ix\<rparr>))"

section \<open>The helper functions\<close>

definition gatherById :: "'doc options \<Rightarrow> 'doc list \<Rightarrow> 'doc mirror_object" where
  "gatherById opts documents =
     fold (\<lambda>doc byId. setProperty byId (toPropertyKey (extractField opts doc (idField opts))) doc)
       documents emptyObject"

definition removeFromMap :: "'doc mirror_object \<Rightarrow> ident \<Rightarrow> 'doc mirror_object" where
  "removeFromMap m keyToRemove = deleteProperty m (toPropertyKey keyToRemove)"

definition removeManyFromMap :: "'doc mirror_object \<Rightarrow> ident list \<Rightarrow> 'doc mirror_object" where
  "removeManyFromMap m keysToRemove =
     fold (\<lambda>keyToRemove m'. deleteProperty m' (toPropertyKey keyToRemove)) keysToRemove m"

text \<open>
  \<open>Object.assign(target, source)\<close> assigns each own property of the source to the
  target. The prototype of the source is not copied. (The order of the assignments does
  not matter: an assignment to one key does not depend on the other own properties.)
\<close>

definition objectAssign :: "'doc mirror_object \<Rightarrow> 'doc mirror_object \<Rightarrow> 'doc mirror_object" where
  "objectAssign target source =
     (let assigned = target\<lparr>own := own target ++ (own source)(''__proto__'' := None)\<rparr>
      in case own source ''__proto__'' of
           None \<Rightarrow> assigned
         | Some d \<Rightarrow> setProperty assigned ''__proto__'' d)"

section \<open>The operations of \<open>useMiniSearch\<close>\<close>

definition search ::
  "('ix, 'doc, 'so, 'm, 'sg) index_service \<Rightarrow> 'doc options \<Rightarrow> ('ix, 'doc, 'm, 'sg) state \<Rightarrow>
   string \<Rightarrow> 'so option \<Rightarrow> ('ix, 'doc, 'm, 'sg) state result" where
  "search svc opts st query searchOptions =
     (case indexSearch svc (miniSearch st) query searchOptions of
        Inl e \<Rightarrow> Threw (IndexOperationFailure e) st
      | Inr results \<Rightarrow>
          Returned (st\<lparr>searchResults :=
                         Some (map (\<lambda>r. getProperty opts (objs st (documentById st))
                                      (toPropertyKey (sr_id r))) results),
                       rawResults := Some results\<rparr>))"

definition autoSuggest ::
  "('ix, 'doc, 'so, 'm, 'sg) index_service \<Rightarrow> ('ix, 'doc, 'm, 'sg) state \<Rightarrow>
   string \<Rightarrow> 'so option \<Rightarrow> ('ix, 'doc, 'm, 'sg) state result" where
  "autoSuggest svc st query searchOptions =
     (case indexSuggest svc (miniSearch st) query searchOptions of
        Inl e \<Rightarrow> Threw (IndexOperationFailure e) st
      | Inr sgs \<Rightarrow> Returned (st\<lparr>suggestions := Some sgs\<rparr>))"

definition add ::
  "('ix, 'doc, 'so, 'm, 'sg) index_service \<Rightarrow> 'doc options \<Rightarrow> ('ix, 'doc, 'm, 'sg) state \<Rightarrow>
   'doc \<Rightarrow> ('ix, 'doc, 'm, 'sg) state result" where
  "add svc opts st document =
     (let st1 = st\<lparr>objs := (objs st)(documentByIdRef st :=
                    setProperty (objs st (documentByIdRef st))
                      (toPropertyKey (extractField opts document (idField opts))) document)\<rparr>
      in afterIndex st1 (indexAdd svc (miniSearch st1) document) (\<lambda>s. s))"

text \<open>
  The two statements \<open>addAll\<close> and \<open>addAllAsync\<close> share: the batch is merged into the
  object \<open>documentById\<close> refers to, and the ref is set to that object.
\<close>

definition mergeBatch ::
  "'doc options \<Rightarrow> ('ix, 'doc, 'm, 'sg) state \<Rightarrow> 'doc list \<Rightarrow> ('ix, 'doc, 'm, 'sg) state" where
  "mergeBatch opts st documents =
     (let byId = gatherById opts documents
      in st\<lparr>objs := (objs st)(documentById st := objectAssign (objs st (documentById st)) byId),
            documentByIdRef := documentById st\<rparr>)"

definition addAll ::
  "('ix, 'doc, 'so, 'm, 'sg) index_service \<Rightarrow> 'doc options \<Rightarrow> ('ix, 'doc, 'm, 'sg) state \<Rightarrow>
   'doc list \<Rightarrow> ('ix, 'doc, 'm, 'sg) state result" where
  "addAll svc opts st documents =
     (let st1 = mergeBatch opts st documents
      in afterIndex st1 (indexAddAll svc (miniSearch st1) documents) (\<lambda>s. s))"

text \<open>
  \<open>addAllAsync\<close> in two parts. The first is what runs before the promise is handed to the
  caller. The second is the \<open>then\<close> callback together with the promise \<open>then\<close> returns:
  it is given the settlement of the promise of the index (\<open>Done\<close>: fulfilled,
  \<open>Failed\<close>: rejected), and its result is the settlement of the promise the caller holds
  (\<open>Returned\<close>: fulfilled, \<open>Threw\<close>: rejected). \<open>then\<close> is called with a fulfilment
  callback only.
\<close>

definition addAllAsync ::
  "'doc options \<Rightarrow> ('ix, 'doc, 'm, 'sg) state \<Rightarrow> 'doc list \<Rightarrow> ('ix, 'doc, 'm, 'sg) state" where
  "addAllAsync opts st documents = (mergeBatch opts st documents)\<lparr>isIndexing := True\<rparr>"

definition addAllAsync_then ::
  "('ix, 'doc, 'm, 'sg) state \<Rightarrow> 'ix index_result \<Rightarrow> ('ix, 'doc, 'm, 'sg) state result" where
  "addAllAsync_then st settled =
     (case settled of
        Done ix \<Rightarrow> Returned (st\<lparr>miniSearch := ix, isIndexing := False\<rparr>)
      | Failed e ix \<Rightarrow> Threw (IndexOperationFailure e) (st\<lparr>miniSearch := ix\<rparr>))"

text \<open>The whole of it when nothing else runs before the index has settled.\<close>

definition addAllAsync_settled ::
  "('ix, 'doc, 'so, 'm, 'sg) index_service \<Rightarrow> 'doc options \<Rightarrow> ('ix, 'doc, 'm, 'sg) state \<Rightarrow>
   'doc list \<Rightarrow> nat option \<Rightarrow> ('ix, 'doc, 'm, 'sg) state result" where
  "addAllAsync_settled svc opts st documents chunkSize =
     (let st1 = addAllAsync opts st documents
      in addAllAsync_then st1 (indexAddAllAsync svc (miniSearch st1) documents chunkSize))"

definition remove_doc ::
  "('ix, 'doc, 'so, 'm, 'sg) index_service \<Rightarrow> 'doc options \<Rightarrow> ('ix, 'doc, 'm, 'sg) state \<Rightarrow>
   'doc \<Rightarrow> ('ix, 'doc, 'm, 'sg) state result" where
  "remove_doc svc opts st document =
     afterIndex st (indexRemove svc (miniSearch st) (Document document))
       (\<lambda>s. s\<lparr>objs := (objs s)(documentById s :=
                  removeFromMap (objs s (documentById s)) (extractField opts document (idField opts))),
              documentByIdRef := documentById s\<rparr>)"

text \<open>
  \<open>removeById\<close>: the value read from the mirror object is tested with \<open>== null\<close>, and a
  value that passes is handed to the index whatever it is.
\<close>

definition removeById ::
  "('ix, 'doc, 'so, 'm, 'sg) index_service \<Rightarrow> 'doc options \<Rightarrow> ('ix, 'doc, 'm, 'sg) state \<Rightarrow>
   ident \<Rightarrow> ('ix, 'doc, 'm, 'sg) state result" where
  "removeById svc opts st i =
     (let document = getProperty opts (objs st (documentById st)) (toPropertyKey i)
      in if nullish document then Threw (NotFound i) st
         else afterIndex st (indexRemove svc (miniSearch st) document)
                (\<lambda>s. s\<lparr>objs := (objs s)(documentById s := removeFromMap (objs s (documentById s)) i),
                       documentByIdRef := documentById s\<rparr>))"

text \<open>
  \<open>removeAll(documents?, options?)\<close>: \<open>None\<close> is the call without documents,
  \<open>ignoreIfMissing\<close> is \<open>options?.ignoreIfMissing\<close>. Without documents the ref is
  given a new empty object; \<open>documentById\<close> keeps referring to the old one. The filter
  keeps a document when what the mirror object yields under its key is truthy.
\<close>

definition removeAll_docs ::
  "('ix, 'doc, 'so, 'm, 'sg) index_service \<Rightarrow> 'doc options \<Rightarrow> ('ix, 'doc, 'm, 'sg) state \<Rightarrow>
   'doc list option \<Rightarrow> bool \<Rightarrow> ('ix, 'doc, 'm, 'sg) state result" where
  "removeAll_docs svc opts st documents ignoreIfMissing =
     (case documents of
        None \<Rightarrow>
          afterIndex st (indexRemoveAll svc (miniSearch st) None)
            (\<lambda>s. s\<lparr>objs := (objs s)(nextObj s := emptyObject),
                   nextObj := Suc (nextObj s),
                   documentByIdRef := nextObj s\<rparr>)
      | Some docs \<Rightarrow>
          (let docs' = (if ignoreIfMissing
                        then filter (\<lambda>document. truthy (getProperty opts (objs st (documentById st))
                               (toPropertyKey (extractField opts document (idField opts))))) docs
                        else docs)
           in afterIndex st (indexRemoveAll svc (miniSearch st) (Some docs'))
                (\<lambda>s. s\<lparr>objs := (objs s)(documentById s :=
                           removeManyFromMap (objs s (documentById s))
                             (map (\<lambda>doc. extractField opts doc (idField opts)) docs')),
                       documentByIdRef := documentById s\<rparr>)))"

definition clearSearch :: "('ix, 'doc, 'm, 'sg) state \<Rightarrow> ('ix, 'doc, 'm, 'sg) state" where
  "clearSearch st = st\<lparr>searchResults := None, rawResults := None\<rparr>"

definition clearSuggestions :: "('ix, 'doc, 'm, 'sg) state \<Rightarrow> ('ix, 'doc, 'm, 'sg) state" where
  "clearSuggestions st = st\<lparr>suggestions := None\<rparr>"

text \<open>
  The first render and the mount effect: a new index, an empty mirror object at address
  0, no results, and then \<open>addAll(documents)\<close>.
\<close>

definition initial :: "'ix \<Rightarrow> ('ix, 'doc, 'm, 'sg) state" where
  "initial ix0 =
     \<lparr>miniSearch = ix0, objs = (\<lambda>a. emptyObject), nextObj = 1, documentByIdRef = 0,
      documentById = 0, rawResults = None, searchResults = None, suggestions = None,
      isIndexing = False\<rparr>"

definition useMiniSearch ::
  "('ix, 'doc, 'so, 'm, 'sg) index_service \<Rightarrow> 'doc options \<Rightarrow> 'ix \<Rightarrow> 'doc list \<Rightarrow>
   ('ix, 'doc, 'm, 'sg) state result" where
  "useMiniSearch svc opts ix0 documents = addAll svc opts (initial ix0) documents"

text \<open>The exception a call ended with, if any.\<close>

fun thrown :: "'st result \<Rightarrow> error option" where
  "thrown (Returned st) = None"
| "thrown (Threw e st) = Some e"

section \<open>Sequences of calls\<close>

text \<open>
  The mutation calls a component can make on the hook, and \<open>Render\<close> for a render of the
  component between two calls.
\<close>

datatype 'doc call =
    Add 'doc
  | AddAll "'doc list"
  | Remove 'doc
  | RemoveById ident
  | RemoveAll "'doc list option" bool
  | Render

fun perform ::
  "('ix, 'doc, 'so, 'm, 'sg) index_service \<Rightarrow> 'doc options \<Rightarrow> ('ix, 'doc, 'm, 'sg) state \<Rightarrow>
   'doc call \<Rightarrow> ('ix, 'doc, 'm, 'sg) state result" where
  "perform svc opts st (Add document) = add svc opts st document"
| "perform svc opts st (AddAll documents) = addAll svc opts st documents"
| "perform svc opts st (Remove document) = remove_doc svc opts st document"
| "perform svc opts st (RemoveById i) = removeById svc opts st i"
| "perform svc opts st (RemoveAll documents ignoreIfMissing) =
     removeAll_docs svc opts st documents ignoreIfMissing"
| "perform svc opts st Render = Returned (rerender st)"

text \<open>
  A sequence of calls by a caller that catches the error of \<open>removeById\<close> and goes on.
  The result is \<open>None\<close> as soon as a call on the index has failed.
\<close>

fun run ::
  "('ix, 'doc, 'so, 'm, 'sg) index_service \<Rightarrow> 'doc options \<Rightarrow> ('ix, 'doc, 'm, 'sg) state \<Rightarrow>
   'doc call list \<Rightarrow> ('ix, 'doc, 'm, 'sg) state option" where
  "run svc opts st [] = Some st"
| "run svc opts st (c # cs) =
     (case perform svc opts st c of
        Returned st' \<Rightarrow> run svc opts st' cs
      | Threw (NotFound i) st' \<Rightarrow> run svc opts st' cs
      | Threw (IndexOperationFailure e) st' \<Rightarrow> None)"

text \<open>The documents a call hands over, and the identities it looks up.\<close>

fun documents_of :: "'doc call \<Rightarrow> 'doc list" where
  "documents_of (Add document) = [document]"
| "documents_of (AddAll documents) = documents"
| "documents_of (Remove document) = [document]"
| "documents_of (RemoveAll (Some documents) ignoreIfMissing) = documents"
| "documents_of c = []"

fun lookups_of :: "'doc call \<Rightarrow> ident list" where
  "lookups_of (RemoveById i) = [i]"
| "lookups_of c = []"

text \<open>
  The calls hand over documents with identities in \<open>I\<close> only, and \<open>removeById\<close> is called
  with identities whose key is not the name of a member of \<open>Object.prototype\<close>.
\<close>

definition calls_within :: "'doc options \<Rightarrow> ident set \<Rightarrow> 'doc call list \<Rightarrow> bool" where
  "calls_within opts I cs =
     (\<forall>c \<in> set cs.
        (\<forall>document \<in> set (documents_of c). identityOf opts document \<in> I)
        \<and> (\<forall>i \<in> set (lookups_of c). ordinary_key (toPropertyKey i)))"

text \<open>
  \<open>removeAll()\<close> without documents is the one call after which \<open>documentById\<close> and
  \<open>documentByIdRef.current\<close> are different objects. In a \<open>rendered\<close> sequence the
  component renders before it makes another call.
\<close>

fun clears :: "'doc call \<Rightarrow> bool" where
  "clears (RemoveAll None ignoreIfMissing) = True"
| "clears c = False"

fun rendered :: "'doc call list \<Rightarrow> bool" where
  "rendered [] = True"
| "rendered [c] = True"
| "rendered (c # c' # cs) = ((clears c \<longrightarrow> c' = Render) \<and> rendered (c' # cs))"

text \<open>Calling \<open>add\<close> on each document in list order; an exception ends the sequence.\<close>

fun addEach ::
  "('ix, 'doc, 'so, 'm, 'sg) index_service \<Rightarrow> 'doc options \<Rightarrow> ('ix, 'doc, 'm, 'sg) state \<Rightarrow>
   'doc list \<Rightarrow> ('ix, 'doc, 'm, 'sg) state result" where
  "addEach svc opts st [] = Returned st"
| "addEach svc opts st (document # documents) =
     (case add svc opts st document of
        Returned st' \<Rightarrow> addEach svc opts st' documents
      | Threw e st' \<Rightarrow> Threw e st')"

text \<open>
  Materialising a hit from a finite map of entries: the entry, or undefined when there is
  none.
\<close>

definition entryOf :: "(string \<rightharpoonup> 'doc) \<Rightarrow> string \<Rightarrow> 'doc jsvalue" where
  "entryOf m k = (case m k of Some d \<Rightarrow> Document d | None \<Rightarrow> Undefined)"

section \<open>What is expected of the index\<close>

text \<open>
  Modelled from the spec: the behaviour of the External Index Service, whose code is
  not in this repository. The index holds documents by identity; \<open>contents\<close> reads
  off an index state which identities it holds and, for each, the document last added
  under it. A call that completes has the effect its name says. Nothing is said about a
  call that fails, nor about \<open>remove\<close> of a value that is not a document.
\<close>

definition index_contract ::
  "('ix, 'doc, 'so, 'm, 'sg) index_service \<Rightarrow> 'doc options \<Rightarrow> ('ix \<Rightarrow> (ident \<rightharpoonup> 'doc)) \<Rightarrow> bool" where
  "index_contract svc opts contents =
     ((\<forall>ix d ix'. indexAdd svc ix d = Done ix' \<longrightarrow>
          contents ix' = (contents ix)(identityOf opts d \<mapsto> d))
      \<and> (\<forall>ix ds ix'. indexAddAll svc ix ds = Done ix' \<longrightarrow>
          contents ix' = fold (\<lambda>d c. c(identityOf opts d \<mapsto> d)) ds (contents ix))
      \<and> (\<forall>ix d ix'. indexRemove svc ix (Document d) = Done ix' \<longrightarrow>
          contents ix' = (contents ix)(identityOf opts d := None))
      \<and> (\<forall>ix ix'. indexRemoveAll svc ix None = Done ix' \<longrightarrow> contents ix' = Map.empty)
      \<and> (\<forall>ix ds ix'. indexRemoveAll svc ix (Some ds) = Done ix' \<longrightarrow>
          contents ix' = fold (\<lambda>d c. c(identityOf opts d := None)) ds (contents ix)))"

text \<open>The index adds a batch as it adds its documents one after the other.\<close>

fun indexAddEach ::
  "('ix, 'doc, 'so, 'm, 'sg) index_service \<Rightarrow> 'ix \<Rightarrow> 'doc list \<Rightarrow> 'ix index_result" where
  "indexAddEach svc ix [] = Done ix"
| "indexAddEach svc ix (d # ds) =
     (case indexAdd svc ix d of
        Done ix' \<Rightarrow> indexAddEach svc ix' ds
      | Failed e ix' \<Rightarrow> Failed e ix')"

definition batch_add_contract :: "('ix, 'doc, 'so, 'm, 'sg) index_service \<Rightarrow> bool" where
  "batch_add_contract svc = (\<forall>ix ds. indexAddAll svc ix ds = indexAddEach svc ix ds)"

text \<open>
  Index/mirror coherence: the keys of the Mirror Store are the identities the index
  holds, and the Mirror Store has, for each of them, the document last added under it.
\<close>

definition coherent ::
  "('ix \<Rightarrow> (ident \<rightharpoonup> 'doc)) \<Rightarrow> ('ix, 'doc, 'm, 'sg) state \<Rightarrow> bool" where
  "coherent contents st =
     (dom (mirrorStore st) = toPropertyKey ` dom (contents (miniSearch st))
      \<and> (\<forall>i d. contents (miniSearch st) i = Some d \<longrightarrow>
            mirrorStore st (toPropertyKey i) = Some d))"

text \<open>Every document in a mirror object is filed under the key of its own identity.\<close>

definition keyed :: "'doc options \<Rightarrow> (string \<rightharpoonup> 'doc) \<Rightarrow> bool" where
  "keyed opts m = (\<forall>k d. m k = Some d \<longrightarrow> keyOf opts d = k)"

definition well_keyed :: "'doc options \<Rightarrow> ('ix, 'doc, 'm, 'sg) state \<Rightarrow> bool" where
  "well_keyed opts st = (\<forall>a. keyed opts (own (objs st a)))"

text \<open>
  The invariant behind coherence, on the entries \<open>m\<close> of a mirror object and the contents
  \<open>c\<close> of the index: the two conditions of coherence, all identities held are in the
  set \<open>I\<close>, and every document is held under its own identity.
\<close>

definition mirrors ::
  "'doc options \<Rightarrow> ident set \<Rightarrow> (string \<rightharpoonup> 'doc) \<Rightarrow> (ident \<rightharpoonup> 'doc) \<Rightarrow> bool" where
  "mirrors opts I m c =
     (dom m = toPropertyKey ` dom c
      \<and> (\<forall>i d. c i = Some d \<longrightarrow> m (toPropertyKey i) = Some d)
      \<and> dom c \<subseteq> I
      \<and> (\<forall>i d. c i = Some d \<longrightarrow> identityOf opts d = i))"

definition mirror_invariant ::
  "'doc options \<Rightarrow> ident set \<Rightarrow> ('ix \<Rightarrow> (ident \<rightharpoonup> 'doc)) \<Rightarrow> ('ix, 'doc, 'm, 'sg) state \<Rightarrow> bool" where
  "mirror_invariant opts I contents st =
     (mirrors opts I (mirrorStore st) (contents (miniSearch st))
      \<and> prototype (mirrorObject st) = None)"

section \<open>A reference index\<close>

text \<open>
  Modelled from the spec: an External Index Service to run the hook against. It keeps
  the documents by identity in the order they were added, refuses to add an identity it
  already holds (the spec's duplicate-identity add) and to remove one it does not hold
  (the spec's unknown-identity removal) or a value that is not a document, and answers a
  query with the identities of the documents that \<open>matches\<close> selects, in the order they
  were added. Identities are compared as values: the number 1 and the string "1" are two
  identities.
\<close>

definition ref_add :: "'doc options \<Rightarrow> (ident \<times> 'doc) list \<Rightarrow> 'doc \<Rightarrow> (ident \<times> 'doc) list index_result" where
  "ref_add opts ix d =
     (if map_of ix (identityOf opts d) \<noteq> None then Failed ''duplicate ID'' ix
      else Done (ix @ [(identityOf opts d, d)]))"

fun ref_addAll :: "'doc options \<Rightarrow> (ident \<times> 'doc) list \<Rightarrow> 'doc list \<Rightarrow> (ident \<times> 'doc) list index_result" where
  "ref_addAll opts ix [] = Done ix"
| "ref_addAll opts ix (d # ds) =
     (case ref_add opts ix d of
        Done ix' \<Rightarrow> ref_addAll opts ix' ds
      | Failed e ix' \<Rightarrow> Failed e ix')"

fun ref_remove :: "'doc options \<Rightarrow> (ident \<times> 'doc) list \<Rightarrow> 'doc jsvalue \<Rightarrow> (ident \<times> 'doc) list index_result" where
  "ref_remove opts ix (Document d) =
     (if map_of ix (identityOf opts d) = None then Failed ''not in the index'' ix
      else Done (filter (\<lambda>entry. fst entry \<noteq> identityOf opts d) ix))"
| "ref_remove opts ix v = Failed ''not in the index'' ix"

fun ref_removeEach :: "'doc options \<Rightarrow> (ident \<times> 'doc) list \<Rightarrow> 'doc list \<Rightarrow> (ident \<times> 'doc) list index_result" where
  "ref_removeEach opts ix [] = Done ix"
| "ref_removeEach opts ix (d # ds) =
     (case ref_remove opts ix (Document d) of
        Done ix' \<Rightarrow> ref_removeEach opts ix' ds
      | Failed e ix' \<Rightarrow> Failed e ix')"

fun ref_removeAll :: "'doc options \<Rightarrow> (ident \<times> 'doc) list \<Rightarrow> 'doc list option \<Rightarrow> (ident \<times> 'doc) list index_result" where
  "ref_removeAll opts ix None = Done []"
| "ref_removeAll opts ix (Some ds) = ref_removeEach opts ix ds"

definition ref_search ::
  "(string \<Rightarrow> 'doc \<Rightarrow> bool) \<Rightarrow> (ident \<times> 'doc) list \<Rightarrow> string \<Rightarrow> unit option \<Rightarrow>
   index_error + unit SearchResult list" where
  "ref_search matches ix query searchOptions =
     Inr (map (\<lambda>entry. \<lparr>sr_id = fst entry, sr_meta = ()\<rparr>)
            (filter (\<lambda>entry. matches query (snd entry)) ix))"

definition reference_index ::
  "'doc options \<Rightarrow> (string \<Rightarrow> 'doc \<Rightarrow> bool) \<Rightarrow>
   ((ident \<times> 'doc) list, 'doc, unit, unit, string) index_service" where
  "reference_index opts matches =
     \<lparr>indexAdd = ref_add opts,
      indexAddAll = ref_addAll opts,
      indexAddAllAsync = (\<lambda>ix ds chunkSize. ref_addAll opts ix ds),
      indexRemove = ref_remove opts,
      indexRemoveAll = ref_removeAll opts,
      indexSearch = ref_search matches,
      indexSuggest = (\<lambda>ix query searchOptions. Inr [])\<rparr>"

text \<open>
  Documents \<open>{id, text}\<close> as pairs, with the options that take the identity from the
  first component, and a query that matches the documents whose text it is. The two
  fields of such a document are values other than documents; the empty string and the
  number 0 are falsy.
\<close>

fun identTruthy :: "ident \<Rightarrow> bool" where
  "identTruthy (IdStr s) = (s \<noteq> [])"
| "identTruthy (IdNum n) = (integerValue n \<noteq> 0)"

definition example_fieldOf :: "ident \<times> string \<Rightarrow> string \<Rightarrow> (ident \<times> string) jsvalue option" where
  "example_fieldOf document k =
     (if k = ''id'' then Some (Other (identTruthy (fst document)) (toPropertyKey (fst document)))
      else if k = ''text'' then Some (Other (snd document \<noteq> []) (snd document))
      else None)"

definition example_options :: "(ident \<times> string) options" where
  "example_options =
     \<lparr>idField = ''id'', extractField = (\<lambda>document fieldName. fst document),
      fieldOf = example_fieldOf\<rparr>"

definition example_index ::
  "((ident \<times> (ident \<times> string)) list, ident \<times> string, unit, unit, string) index_service" where
  "example_index = reference_index example_options (\<lambda>query document. snd document = query)"

definition example_initial ::
  "((ident \<times> (ident \<times> string)) list, ident \<times> string, unit, string) state" where
  "example_initial = initial []"

section \<open>Evaluation and folds\<close>

text \<open>
  The number literals of the examples, and the definitions to unfold when a call is
  evaluated on them.
\<close>

lemma integerValue_safeInteger:
  "- 9007199254740991 \<le> n \<Longrightarrow> n \<le> 9007199254740991 \<Longrightarrow> integerValue (safeInteger n) = n"
  by (simp add: safeInteger_inverse)

lemma safeInteger_eq_iff:
  "- 9007199254740991 \<le> a \<Longrightarrow> a \<le> 9007199254740991 \<Longrightarrow>
   - 9007199254740991 \<le> b \<Longrightarrow> b \<le> 9007199254740991 \<Longrightarrow>
   (safeInteger a = safeInteger b) = (a = b)"
  by (simp add: safeInteger_inject)

lemmas hook_defs = add_def addAll_def mergeBatch_def afterIndex_def remove_doc_def removeById_def
  removeAll_docs_def gatherById_def objectAssign_def removeFromMap_def removeManyFromMap_def
  useMiniSearch_def initial_def mirrorStore_def capturedStore_def mirrorObject_def
  capturedObject_def rerender_def search_def getProperty_def setProperty_def deleteProperty_def
  emptyObject_def objectPrototypeMember_def objectPrototypeNames_def Let_def

lemmas example_defs = reference_index_def ref_add_def example_options_def
  example_fieldOf_def example_index_def example_initial_def identityOf_def keyOf_def ref_search_def
  numberToString_def digit_char_def integerValue_safeInteger safeInteger_eq_iff

lemma merge_fold:
  "m ++ fold (\<lambda>d b. b(k d \<mapsto> d)) ds b0 = fold (\<lambda>d b. b(k d \<mapsto> d)) ds (m ++ b0)"
  by (induction ds arbitrary: b0) simp_all

lemma fold_upd_last:
  "d \<in> set ds \<Longrightarrow>
   \<exists>d' \<in> set ds. k d' = k d \<and> fold (\<lambda>d b. b(k d \<mapsto> d)) ds m (k d) = Some d'"
proof (induction ds arbitrary: m rule: rev_induct)
  case Nil
  then show ?case by simp
next
  case (snoc x xs)
  show ?case
  proof (cases "k x = k d")
    case True
    then show ?thesis by auto
  next
    case False
    with snoc.prems have "d \<in> set xs" by auto
    from snoc.IH [OF this, of m] False show ?thesis by auto
  qed
qed

lemma fold_upd_distinct:
  "distinct (map k ds) \<Longrightarrow> d \<in> set ds \<Longrightarrow> fold (\<lambda>d b. b(k d \<mapsto> d)) ds m (k d) = Some d"
  using fold_upd_last [of d ds k m] by (auto simp: distinct_map inj_on_def)

lemma fold_upd_absent:
  "(\<forall>d \<in> set ds. k d \<noteq> j) \<Longrightarrow> fold (\<lambda>d b. b(k d \<mapsto> d)) ds m j = m j"
  by (induction ds arbitrary: m) auto

text \<open>
Own properties and prototype after a sequence of assignments.
\<close>

lemma setProperty_ordinary:
  "k \<noteq> ''__proto__'' \<Longrightarrow> setProperty object k d = object\<lparr>own := (own object)(k \<mapsto> d)\<rparr>"
  by (simp add: setProperty_def)

lemma setProperty_proto:
  "own object ''__proto__'' = None \<Longrightarrow>
   setProperty object ''__proto__'' d = object\<lparr>prototype := Some d\<rparr>"
  by (simp add: setProperty_def)

lemma own_fold_setProperty:
  "own object ''__proto__'' = None \<Longrightarrow>
   own (fold (\<lambda>d b. setProperty b (k d) d) ds object)
     = fold (\<lambda>d m. m(k d \<mapsto> d)) (filter (\<lambda>d. k d \<noteq> ''__proto__'') ds) (own object)"
proof (induction ds arbitrary: object)
  case Nil
  show ?case by simp
next
  case (Cons d ds)
  show ?case
  proof (cases "k d = ''__proto__''")
    case True
    with Cons.prems have "setProperty object (k d) d = object\<lparr>prototype := Some d\<rparr>"
      by (simp add: setProperty_proto)
    with Cons.IH [of "object\<lparr>prototype := Some d\<rparr>"] Cons.prems True show ?thesis
      by simp
  next
    case False
    then have s: "setProperty object (k d) d = object\<lparr>own := (own object)(k d \<mapsto> d)\<rparr>"
      by (rule setProperty_ordinary)
    from False Cons.prems have "own (object\<lparr>own := (own object)(k d \<mapsto> d)\<rparr>) ''__proto__'' = None"
      by simp
    from Cons.IH [OF this] False s show ?thesis
      by simp
  qed
qed

lemma fold_upd_proto_absent:
  "m ''__proto__'' = None \<Longrightarrow>
   fold (\<lambda>d m. m(k d \<mapsto> d)) (filter (\<lambda>d. k d \<noteq> ''__proto__'') ds) m ''__proto__'' = None"
  using fold_upd_absent [of "filter (\<lambda>d. k d \<noteq> ''__proto__'') ds" k "''__proto__''" m] by simp

lemma own_gatherById:
  "own (gatherById opts ds)
     = fold (\<lambda>d m. m(keyOf opts d \<mapsto> d)) (filter (\<lambda>d. keyOf opts d \<noteq> ''__proto__'') ds) Map.empty"
  using own_fold_setProperty [of emptyObject "keyOf opts" ds]
  by (simp add: gatherById_def emptyObject_def keyOf_def identityOf_def)

lemma own_gatherById_proto: "own (gatherById opts ds) ''__proto__'' = None"
  by (simp add: own_gatherById fold_upd_proto_absent)

lemma objectAssign_gatherById:
  "objectAssign target (gatherById opts ds)
     = target\<lparr>own := fold (\<lambda>d m. m(keyOf opts d \<mapsto> d))
                       (filter (\<lambda>d. keyOf opts d \<noteq> ''__proto__'') ds) (own target)\<rparr>"
proof -
  have "(own (gatherById opts ds))(''__proto__'' := None) = own (gatherById opts ds)"
    using own_gatherById_proto [of opts ds] by (simp add: fun_upd_idem)
  then have "objectAssign target (gatherById opts ds)
      = target\<lparr>own := own target ++ own (gatherById opts ds)\<rparr>"
    by (simp add: objectAssign_def own_gatherById_proto)
  then show ?thesis
    using merge_fold [of "own target" "keyOf opts" _ Map.empty]
    by (simp add: own_gatherById)
qed

lemma mergeBatch_eq:
  "mergeBatch opts st ds
     = st\<lparr>objs := (objs st)(documentById st := (objs st (documentById st))
               \<lparr>own := fold (\<lambda>d m. m(keyOf opts d \<mapsto> d))
                         (filter (\<lambda>d. keyOf opts d \<noteq> ''__proto__'') ds)
                         (own (objs st (documentById st)))\<rparr>),
          documentByIdRef := documentById st\<rparr>"
  by (simp add: mergeBatch_def objectAssign_gatherById)

lemma mirror_mergeBatch:
  "mirrorStore (mergeBatch opts st ds)
     = fold (\<lambda>d m. m(keyOf opts d \<mapsto> d)) (filter (\<lambda>d. keyOf opts d \<noteq> ''__proto__'') ds)
         (capturedStore st)"
  "prototype (mirrorObject (mergeBatch opts st ds)) = prototype (capturedObject st)"
  by (simp_all add: mergeBatch_eq mirrorStore_def capturedStore_def mirrorObject_def capturedObject_def)

lemma filter_ordinary:
  "\<forall>d \<in> set ds. keyOf opts d \<noteq> ''__proto__'' \<Longrightarrow>
   filter (\<lambda>d. keyOf opts d \<noteq> ''__proto__'') ds = ds"
  by (induction ds) simp_all


lemma state_of_afterIndex_id:
  "objs (state_of (afterIndex st r (\<lambda>s. s))) = objs st"
  "documentByIdRef (state_of (afterIndex st r (\<lambda>s. s))) = documentByIdRef st"
  "documentById (state_of (afterIndex st r (\<lambda>s. s))) = documentById st"
  by (simp_all add: afterIndex_def split: index_result.splits)

lemma afterIndex_not_NotFound: "afterIndex st r rest \<noteq> Threw (NotFound j) s"
  by (simp add: afterIndex_def split: index_result.splits)

lemma addAll_merged:
  "objs (state_of (addAll svc opts st ds)) = objs (mergeBatch opts st ds)"
  "documentByIdRef (state_of (addAll svc opts st ds)) = documentByIdRef (mergeBatch opts st ds)"
  "mirrorStore (state_of (addAll svc opts st ds)) = mirrorStore (mergeBatch opts st ds)"
  "miniSearch (mergeBatch opts st ds) = miniSearch st"
  by (simp_all add: addAll_def Let_def state_of_afterIndex_id mirrorStore_def mergeBatch_def)

lemma own_fold_deleteProperty:
  "own (fold (\<lambda>x m. deleteProperty m (g x)) xs object) = fold (\<lambda>x b. b(g x := None)) xs (own object)"
  "prototype (fold (\<lambda>x m. deleteProperty m (g x)) xs object) = prototype object"
  by (induction xs arbitrary: object) (simp_all add: deleteProperty_def)

lemma own_removeManyFromMap:
  "own (removeManyFromMap object (map (\<lambda>doc. extractField opts doc (idField opts)) ds))
     = fold (\<lambda>d b. b(toPropertyKey (identityOf opts d) := None)) ds (own object)"
  "prototype (removeManyFromMap object js) = prototype object"
  by (simp_all add: removeManyFromMap_def identityOf_def fold_map comp_def own_fold_deleteProperty)

text \<open>
  Reading a plain object: an own property is found; a key that is neither an own
  property nor the name of a member of \<open>Object.prototype\<close> yields undefined, as long
  as the prototype has not been replaced.
\<close>

lemma getProperty_own: "own object k = Some d \<Longrightarrow> getProperty opts object k = Document d"
  by (simp add: getProperty_def)

lemma getProperty_absent:
  "own object k = None \<Longrightarrow> prototype object = None \<Longrightarrow> ordinary_key k \<Longrightarrow>
   getProperty opts object k = Undefined"
  by (auto simp: getProperty_def ordinary_key_def objectPrototypeMember_def objectPrototypeNames_def)

lemma getProperty_entryOf:
  "prototype object = None \<Longrightarrow> ordinary_key k \<Longrightarrow>
   getProperty opts object k = entryOf (own object) k"
  by (cases "own object k") (simp_all add: entryOf_def getProperty_own getProperty_absent)

section \<open>The reference index keeps its contract\<close>

lemma reference_index_sel:
  "indexAdd (reference_index opts matches) = ref_add opts"
  "indexAddAll (reference_index opts matches) = ref_addAll opts"
  "indexRemove (reference_index opts matches) = ref_remove opts"
  "indexRemoveAll (reference_index opts matches) = ref_removeAll opts"
  "indexSearch (reference_index opts matches) = ref_search matches"
  "indexAddAllAsync (reference_index opts matches) = (\<lambda>ix ds chunkSize. ref_addAll opts ix ds)"
  by (simp_all add: reference_index_def)

lemma map_of_snoc_fresh:
  assumes "map_of ix i = None"
  shows "map_of (ix @ [(i, d)]) = (map_of ix)(i \<mapsto> d)"
proof
  fix k
  show "map_of (ix @ [(i, d)]) k = ((map_of ix)(i \<mapsto> d)) k"
    using assms by (cases "k = i") (simp_all add: map_add_def split: option.splits)
qed

lemma ref_add_Done:
  assumes "ref_add opts ix d = Done ix'"
  shows "map_of ix' = (map_of ix)(identityOf opts d \<mapsto> d)"
proof -
  from assms have "map_of ix (identityOf opts d) = None" and "ix' = ix @ [(identityOf opts d, d)]"
    by (simp_all add: ref_add_def split: if_splits)
  then show ?thesis
    by (simp only: map_of_snoc_fresh)
qed

lemma ref_addAll_Done:
  "ref_addAll opts ix ds = Done ix' \<Longrightarrow>
   map_of ix' = fold (\<lambda>d c. c(identityOf opts d \<mapsto> d)) ds (map_of ix)"
proof (induction ds arbitrary: ix)
  case Nil
  then show ?case by simp
next
  case (Cons d ds)
  then obtain ix1 where a: "ref_add opts ix d = Done ix1" and b: "ref_addAll opts ix1 ds = Done ix'"
    by (auto split: index_result.splits)
  from Cons.IH [OF b] ref_add_Done [OF a] show ?case by simp
qed

lemma map_of_filter_fst_apply:
  "map_of (filter (\<lambda>entry. fst entry \<noteq> i) ix) k = (if k = i then None else map_of ix k)"
  by (induction ix) auto

lemma map_of_filter_fst:
  "map_of (filter (\<lambda>entry. fst entry \<noteq> i) ix) = (map_of ix)(i := None)"
  by (rule ext) (simp add: map_of_filter_fst_apply)

lemma ref_remove_Done:
  assumes "ref_remove opts ix (Document d) = Done ix'"
  shows "map_of ix' = (map_of ix)(identityOf opts d := None)"
proof -
  from assms have "ix' = filter (\<lambda>entry. fst entry \<noteq> identityOf opts d) ix"
    by (simp split: if_splits)
  then show ?thesis
    by (simp only: map_of_filter_fst)
qed

lemma ref_removeEach_Done:
  "ref_removeEach opts ix ds = Done ix' \<Longrightarrow>
   map_of ix' = fold (\<lambda>d c. c(identityOf opts d := None)) ds (map_of ix)"
proof (induction ds arbitrary: ix)
  case Nil
  then show ?case by simp
next
  case (Cons d ds)
  then obtain ix1 where a: "ref_remove opts ix (Document d) = Done ix1"
    and b: "ref_removeEach opts ix1 ds = Done ix'"
    by (auto simp del: ref_remove.simps split: index_result.splits)
  from Cons.IH [OF b] ref_remove_Done [OF a] show ?case by simp
qed

lemma reference_index_contract: "index_contract (reference_index opts matches) opts map_of"
proof -
  have a: "\<forall>ix d ix'. ref_add opts ix d = Done ix' \<longrightarrow>
      map_of ix' = (map_of ix)(identityOf opts d \<mapsto> d)"
    by (intro allI impI) (rule ref_add_Done)
  have b: "\<forall>ix ds ix'. ref_addAll opts ix ds = Done ix' \<longrightarrow>
      map_of ix' = fold (\<lambda>d c. c(identityOf opts d \<mapsto> d)) ds (map_of ix)"
    by (intro allI impI) (rule ref_addAll_Done)
  have c: "\<forall>ix d ix'. ref_remove opts ix (Document d) = Done ix' \<longrightarrow>
      map_of ix' = (map_of ix)(identityOf opts d := None)"
    by (intro allI impI) (rule ref_remove_Done)
  have d: "\<forall>ix ix'. ref_removeAll opts ix None = Done ix' \<longrightarrow> map_of ix' = Map.empty"
    by (intro allI impI) simp
  have e: "\<forall>ix ds ix'. ref_removeAll opts ix (Some ds) = Done ix' \<longrightarrow>
      map_of ix' = fold (\<lambda>d c. c(identityOf opts d := None)) ds (map_of ix)"
    by (intro allI impI) (simp add: ref_removeEach_Done)
  show ?thesis
    unfolding index_contract_def reference_index_sel by (intro conjI a b c d e)
qed

lemma reference_index_batch: "batch_add_contract (reference_index opts matches)"
proof -
  have "ref_addAll opts ix ds = indexAddEach (reference_index opts matches) ix ds" for ix ds
  proof (induction ds arbitrary: ix)
    case Nil
    show ?case by simp
  next
    case (Cons d ds)
    show ?case
      by (cases "ref_add opts ix d") (simp_all add: reference_index_sel Cons.IH)
  qed
  then show ?thesis
    by (simp add: batch_add_contract_def reference_index_sel)
qed

section \<open>Documents are filed under their own key\<close>

lemma keyed_empty: "keyed opts Map.empty"
  by (simp add: keyed_def)

lemma keyed_upd: "keyed opts m \<Longrightarrow> keyed opts (m(keyOf opts d \<mapsto> d))"
  by (simp add: keyed_def)

lemma keyed_del: "keyed opts m \<Longrightarrow> keyed opts (m(k := None))"
  by (simp add: keyed_def)

lemma keyed_fold_upd: "keyed opts m \<Longrightarrow> keyed opts (fold (\<lambda>d b. b(keyOf opts d \<mapsto> d)) ds m)"
  by (induction ds arbitrary: m) (simp_all add: keyed_upd)

lemma keyed_setProperty:
  "keyed opts (own object) \<Longrightarrow> keyed opts (own (setProperty object (keyOf opts d) d))"
  by (simp add: setProperty_def keyed_upd)

lemma keyed_removeFromMap:
  "keyed opts (own object) \<Longrightarrow> keyed opts (own (removeFromMap object i))"
  by (simp add: removeFromMap_def deleteProperty_def keyed_del)

lemma keyed_removeManyFromMap:
  "keyed opts (own object) \<Longrightarrow> keyed opts (own (removeManyFromMap object js))"
  unfolding removeManyFromMap_def
  by (induction js arbitrary: object) (simp_all add: deleteProperty_def keyed_del)


lemma well_keyed_miniSearch: "well_keyed opts (st\<lparr>miniSearch := ix\<rparr>) = well_keyed opts st"
  by (simp add: well_keyed_def)

lemma well_keyed_afterIndex:
  assumes "well_keyed opts st" and "\<And>ix. well_keyed opts (rest (st\<lparr>miniSearch := ix\<rparr>))"
  shows "well_keyed opts (state_of (afterIndex st r rest))"
  using assms by (cases r) (simp_all add: afterIndex_def well_keyed_miniSearch)

lemma well_keyed_mergeBatch:
  assumes "well_keyed opts st"
  shows "well_keyed opts (mergeBatch opts st ds)"
proof -
  from assms have "keyed opts (own (objs st (documentById st)))"
    by (simp add: well_keyed_def)
  then have "keyed opts (fold (\<lambda>d m. m(keyOf opts d \<mapsto> d))
      (filter (\<lambda>d. keyOf opts d \<noteq> ''__proto__'') ds) (own (objs st (documentById st))))"
    by (rule keyed_fold_upd)
  with assms show ?thesis
    by (simp add: mergeBatch_eq well_keyed_def)
qed

lemma well_keyed_add:
  assumes "well_keyed opts st"
  shows "well_keyed opts (state_of (add svc opts st d))"
proof -
  from assms have "keyed opts (own (objs st (documentByIdRef st)))"
    by (simp add: well_keyed_def)
  then have "keyed opts (own (setProperty (objs st (documentByIdRef st)) (keyOf opts d) d))"
    by (rule keyed_setProperty)
  with assms have written: "well_keyed opts (st\<lparr>objs := (objs st)(documentByIdRef st :=
      setProperty (objs st (documentByIdRef st))
        (toPropertyKey (extractField opts d (idField opts))) d)\<rparr>)"
    by (simp add: well_keyed_def keyOf_def identityOf_def)
  show ?thesis
    unfolding add_def Let_def
    by (rule well_keyed_afterIndex [OF written]) (simp add: well_keyed_miniSearch written)
qed

lemma well_keyed_addAll:
  "well_keyed opts st \<Longrightarrow> well_keyed opts (state_of (addAll svc opts st ds))"
  unfolding addAll_def Let_def
  by (rule well_keyed_afterIndex) (simp_all add: well_keyed_mergeBatch well_keyed_miniSearch)

lemma well_keyed_remove_doc:
  assumes "well_keyed opts st"
  shows "well_keyed opts (state_of (remove_doc svc opts st d))"
  unfolding remove_doc_def
  by (rule well_keyed_afterIndex [OF assms])
     (use assms in \<open>simp add: well_keyed_def keyed_removeFromMap\<close>)

lemma well_keyed_removeById:
  assumes "well_keyed opts st"
  shows "well_keyed opts (state_of (removeById svc opts st i))"
proof (cases "nullish (getProperty opts (objs st (documentById st)) (toPropertyKey i))")
  case True
  with assms show ?thesis by (simp add: removeById_def)
next
  case False
  have "well_keyed opts (state_of (afterIndex st (indexRemove svc (miniSearch st) v)
      (\<lambda>s. s\<lparr>objs := (objs s)(documentById s := removeFromMap (objs s (documentById s)) i),
             documentByIdRef := documentById s\<rparr>)))" for v
    by (rule well_keyed_afterIndex [OF assms])
       (use assms in \<open>simp add: well_keyed_def keyed_removeFromMap\<close>)
  with False show ?thesis by (simp add: removeById_def)
qed

lemma well_keyed_removeAll_docs:
  assumes "well_keyed opts st"
  shows "well_keyed opts (state_of (removeAll_docs svc opts st ds b))"
proof (cases ds)
  case None
  have "well_keyed opts (state_of (afterIndex st (indexRemoveAll svc (miniSearch st) None)
      (\<lambda>s. s\<lparr>objs := (objs s)(nextObj s := emptyObject), nextObj := Suc (nextObj s),
             documentByIdRef := nextObj s\<rparr>)))"
    by (rule well_keyed_afterIndex [OF assms])
       (use assms in \<open>simp add: well_keyed_def keyed_empty emptyObject_def\<close>)
  with None show ?thesis by (simp add: removeAll_docs_def)
next
  case (Some docs)
  have "well_keyed opts (state_of (afterIndex st (indexRemoveAll svc (miniSearch st) (Some docs'))
      (\<lambda>s. s\<lparr>objs := (objs s)(documentById s := removeManyFromMap (objs s (documentById s))
               (map (\<lambda>doc. extractField opts doc (idField opts)) docs')),
             documentByIdRef := documentById s\<rparr>)))" for docs'
    by (rule well_keyed_afterIndex [OF assms])
       (use assms in \<open>simp add: well_keyed_def keyed_removeManyFromMap\<close>)
  with Some show ?thesis by (simp add: removeAll_docs_def Let_def)
qed

lemma well_keyed_rerender: "well_keyed opts st \<Longrightarrow> well_keyed opts (rerender st)"
  by (simp add: well_keyed_def rerender_def)

text \<open>
Every call keeps the documents under their own keys, whether it returns or throws.
\<close>

lemma well_keyed_perform:
  "well_keyed opts st \<Longrightarrow> well_keyed opts (state_of (perform svc opts st c))"
  by (cases c)
     (simp_all add: well_keyed_add well_keyed_addAll well_keyed_remove_doc well_keyed_removeById
        well_keyed_removeAll_docs well_keyed_rerender)


lemma well_keyed_search:
  "well_keyed opts st \<Longrightarrow> well_keyed opts (state_of (search svc opts st query searchOptions))"
  by (cases "indexSearch svc (miniSearch st) query searchOptions")
     (simp_all add: search_def well_keyed_def)

lemma well_keyed_autoSuggest:
  "well_keyed opts st \<Longrightarrow> well_keyed opts (state_of (autoSuggest svc st query searchOptions))"
  by (cases "indexSuggest svc (miniSearch st) query searchOptions")
     (simp_all add: autoSuggest_def well_keyed_def)

lemma well_keyed_addAllAsync: "well_keyed opts st \<Longrightarrow> well_keyed opts (addAllAsync opts st ds)"
  using well_keyed_mergeBatch [of opts st ds] by (simp add: addAllAsync_def well_keyed_def)

lemma well_keyed_addAllAsync_then:
  "well_keyed opts st \<Longrightarrow> well_keyed opts (state_of (addAllAsync_then st settled))"
  by (cases settled) (simp_all add: addAllAsync_then_def well_keyed_def)

lemma well_keyed_clear:
  "well_keyed opts st \<Longrightarrow> well_keyed opts (clearSearch st) \<and> well_keyed opts (clearSuggestions st)"
  by (simp add: clearSearch_def clearSuggestions_def well_keyed_def)

section \<open>The two references to the mirror\<close>

text \<open>
  \<open>documentById\<close> and \<open>documentByIdRef.current\<close> are the same object at the start, after
  every render, and after every call but \<open>removeAll()\<close> without documents.
\<close>

lemma captured_is_mirror:
  "documentById st = documentByIdRef st \<Longrightarrow> capturedStore st = mirrorStore st"
  "documentById st = documentByIdRef st \<Longrightarrow> capturedObject st = mirrorObject st"
  by (simp_all add: capturedStore_def mirrorStore_def capturedObject_def mirrorObject_def)

lemma refs_afterIndex:
  assumes "\<And>ix. documentById (rest (st\<lparr>miniSearch := ix\<rparr>)) = documentByIdRef (rest (st\<lparr>miniSearch := ix\<rparr>))"
    and "documentById st = documentByIdRef st"
  shows "documentById (state_of (afterIndex st r rest)) = documentByIdRef (state_of (afterIndex st r rest))"
  using assms by (cases r) (simp_all add: afterIndex_def)

lemma same_object_perform:
  assumes "documentById st = documentByIdRef st" and "\<not> clears c"
  shows "documentById (state_of (perform svc opts st c))
     = documentByIdRef (state_of (perform svc opts st c))"
proof (cases c)
  case (Add d)
  with assms show ?thesis
    by (simp add: add_def Let_def refs_afterIndex)
next
  case (AddAll ds)
  with assms show ?thesis
    by (simp add: addAll_def mergeBatch_def Let_def refs_afterIndex)
next
  case (Remove d)
  with assms show ?thesis
    by (simp add: remove_doc_def refs_afterIndex)
next
  case (RemoveById i)
  with assms show ?thesis
    by (simp add: removeById_def Let_def refs_afterIndex)
next
  case (RemoveAll ds b)
  with assms obtain docs where "ds = Some docs"
    by (cases ds) simp_all
  with RemoveAll assms show ?thesis
    by (simp add: removeAll_docs_def Let_def refs_afterIndex)
next
  case Render
  then show ?thesis by (simp add: rerender_def)
qed

lemma same_object_rerender: "documentById (rerender st) = documentByIdRef (rerender st)"
  by (simp add: rerender_def)

section \<open>The clear operations\<close>

text \<open>
  C9. \<open>clearSearch\<close> sets \<open>searchResults\<close> and \<open>rawResults\<close> to null and changes
  nothing else; \<open>clearSuggestions\<close> sets \<open>suggestions\<close> to null and changes nothing
  else. In particular the index, every mirror object and both references to the mirror
  stay as they were.
\<close>

theorem clear_operations_frame:
  "searchResults (clearSearch st) = None \<and> rawResults (clearSearch st) = None
   \<and> suggestions (clearSearch st) = suggestions st
   \<and> isIndexing (clearSearch st) = isIndexing st
   \<and> miniSearch (clearSearch st) = miniSearch st
   \<and> objs (clearSearch st) = objs st
   \<and> nextObj (clearSearch st) = nextObj st
   \<and> documentByIdRef (clearSearch st) = documentByIdRef st
   \<and> documentById (clearSearch st) = documentById st
   \<and> mirrorStore (clearSearch st) = mirrorStore st
   \<and> suggestions (clearSuggestions st) = None
   \<and> searchResults (clearSuggestions st) = searchResults st
   \<and> rawResults (clearSuggestions st) = rawResults st
   \<and> isIndexing (clearSuggestions st) = isIndexing st
   \<and> miniSearch (clearSuggestions st) = miniSearch st
   \<and> objs (clearSuggestions st) = objs st
   \<and> nextObj (clearSuggestions st) = nextObj st
   \<and> documentByIdRef (clearSuggestions st) = documentByIdRef st
   \<and> documentById (clearSuggestions st) = documentById st
   \<and> mirrorStore (clearSuggestions st) = mirrorStore st"
  by (simp add: clearSearch_def clearSuggestions_def mirrorStore_def)

section \<open>\<open>removeById\<close>\<close>




section \<open>\<open>search\<close>\<close>




section \<open>\<open>add\<close> and a failing index\<close>

text \<open>
  The index already holds the identity 1 and refuses the second document: \<open>add\<close> throws,
  the index is as before, and the mirror holds the refused document in place of the
  indexed one.
\<close>

theorem add_no_rollback:
  "thrown (add example_index example_options
     (state_of (useMiniSearch example_index example_options [] [(IdNum (safeInteger 1), ''red fox'')]))
     (IdNum (safeInteger 1), ''brown fox'')) = Some (IndexOperationFailure ''duplicate ID'')
   \<and> mirrorStore (state_of (useMiniSearch example_index example_options []
        [(IdNum (safeInteger 1), ''red fox'')])) ''1''
       = Some (IdNum (safeInteger 1), ''red fox'')
   \<and> mirrorStore (state_of (add example_index example_options
        (state_of (useMiniSearch example_index example_options [] [(IdNum (safeInteger 1), ''red fox'')]))
        (IdNum (safeInteger 1), ''brown fox''))) ''1'' = Some (IdNum (safeInteger 1), ''brown fox'')
   \<and> miniSearch (state_of (add example_index example_options
        (state_of (useMiniSearch example_index example_options [] [(IdNum (safeInteger 1), ''red fox'')]))
        (IdNum (safeInteger 1), ''brown fox''))) = [(IdNum (safeInteger 1), (IdNum (safeInteger 1), ''red fox''))]"
  by (simp add: hook_defs example_defs)

text \<open>
  C4, as amended. For a document whose key is not \<open>__proto__\<close>: \<open>add\<close> writes the
  document into the Mirror Store under the key of its extracted identity and then calls
  the index. When the index completes, \<open>add\<close> returns. When the index fails, \<open>add\<close>
  throws the failure of the index; the Mirror Store keeps the entry written before the
  call: nothing is rolled back.
\<close>

theorem add_writes_mirror_first:
  assumes "keyOf opts document \<noteq> ''__proto__''"
  shows "(\<forall>ix. indexAdd svc (miniSearch st) document = Done ix \<longrightarrow>
      (\<exists>st'. add svc opts st document = Returned st' \<and> miniSearch st' = ix
         \<and> mirrorStore st' = (mirrorStore st)(keyOf opts document \<mapsto> document)))
   \<and> (\<forall>e ix. indexAdd svc (miniSearch st) document = Failed e ix \<longrightarrow>
      (\<exists>st'. add svc opts st document = Threw (IndexOperationFailure e) st' \<and> miniSearch st' = ix
         \<and> mirrorStore st' = (mirrorStore st)(keyOf opts document \<mapsto> document)))"
  using assms
  by (simp add: add_def afterIndex_def mirrorStore_def keyOf_def identityOf_def setProperty_ordinary)

text \<open>
  On the reference index: \<open>add\<close> of a first document with identity 1 returns; \<open>add\<close> of a
  second one with the same identity throws, and the Mirror Store holds the second.
\<close>

theorem add_writes_mirror_first_witness:
  "(\<exists>st'. add example_index example_options example_initial (IdNum (safeInteger 1), ''red fox'') = Returned st'
       \<and> miniSearch st' = [(IdNum (safeInteger 1), (IdNum (safeInteger 1), ''red fox''))]
       \<and> mirrorStore st' = (mirrorStore example_initial)(''1'' \<mapsto> (IdNum (safeInteger 1), ''red fox'')))
   \<and> (\<exists>st'. add example_index example_options
          (state_of (add example_index example_options example_initial (IdNum (safeInteger 1), ''red fox'')))
          (IdNum (safeInteger 1), ''brown fox'') = Threw (IndexOperationFailure ''duplicate ID'') st'
       \<and> miniSearch st' = [(IdNum (safeInteger 1), (IdNum (safeInteger 1), ''red fox''))]
       \<and> mirrorStore st' ''1'' = Some (IdNum (safeInteger 1), ''brown fox''))"
proof -
  let ?s1 = "state_of (add example_index example_options example_initial (IdNum (safeInteger 1), ''red fox''))"
  have ok: "indexAdd example_index (miniSearch example_initial) (IdNum (safeInteger 1), ''red fox'')
      = Done [(IdNum (safeInteger 1), (IdNum (safeInteger 1), ''red fox''))]"
    by (simp add: hook_defs example_defs)
  have dup: "indexAdd example_index (miniSearch ?s1) (IdNum (safeInteger 1), ''brown fox'')
      = Failed ''duplicate ID'' [(IdNum (safeInteger 1), (IdNum (safeInteger 1), ''red fox''))]"
    by (simp add: hook_defs example_defs)
  have k: "keyOf example_options (IdNum (safeInteger 1), s) = ''1''" for s
    by (simp add: example_defs)
  have p: "keyOf example_options (IdNum (safeInteger 1), s) \<noteq> ''__proto__''" for s
    by (simp add: k)
  from add_writes_mirror_first [OF p, of example_index example_initial "''red fox''"]
    add_writes_mirror_first [OF p, of example_index ?s1 "''brown fox''"]
    ok dup show ?thesis
    by (auto simp: k)
qed

section \<open>\<open>addAllAsync\<close>\<close>

text \<open>
  C2, on the code. \<open>addAllAsync\<close> has set \<open>isIndexing\<close> when it hands the promise to the
  caller, and the \<open>then\<close> callback clears it when the promise of the index is fulfilled.
  When the promise of the index is rejected, the caller's promise is rejected with the
  same error, and \<open>isIndexing\<close> is still true: the callback that clears it is registered
  for fulfilment only. The last two lines are a batch with a duplicate identity on the
  reference index.
\<close>

theorem addAllAsync_flag_on_rejection:
  "isIndexing (addAllAsync opts st documents)
   \<and> thrown (addAllAsync_then (addAllAsync opts st documents) (Done ix)) = None
   \<and> \<not> isIndexing (state_of (addAllAsync_then (addAllAsync opts st documents) (Done ix)))
   \<and> thrown (addAllAsync_then (addAllAsync opts st documents) (Failed e ix))
       = Some (IndexOperationFailure e)
   \<and> isIndexing (state_of (addAllAsync_then (addAllAsync opts st documents) (Failed e ix)))
   \<and> thrown (addAllAsync_settled example_index example_options example_initial
        [(IdNum (safeInteger 1), ''red fox''), (IdNum (safeInteger 1), ''brown fox'')] None)
       = Some (IndexOperationFailure ''duplicate ID'')
   \<and> isIndexing (state_of (addAllAsync_settled example_index example_options example_initial
        [(IdNum (safeInteger 1), ''red fox''), (IdNum (safeInteger 1), ''brown fox'')] None))"
  by (simp add: addAllAsync_def addAllAsync_then_def addAllAsync_settled_def hook_defs example_defs)

text \<open>
  A batch of two documents, the first with the number 1 as identity, the second with
  the string "1". When \<open>addAllAsync\<close> hands its promise to the caller, the key of the
  first document's identity is mapped to the second document.
\<close>

theorem addAllAsync_collision:
  "toPropertyKey (identityOf example_options (IdNum (safeInteger 1), ''red fox'')) = ''1''
   \<and> mirrorStore (addAllAsync example_options example_initial
        [(IdNum (safeInteger 1), ''red fox''), (IdStr ''1'', ''grey cat'')]) ''1''
       = Some (IdStr ''1'', ''grey cat'')
   \<and> (IdStr ''1'', ''grey cat'') \<noteq> (IdNum (safeInteger 1), ''red fox'')"
  by (simp add: addAllAsync_def hook_defs example_defs)

text \<open>
  C6, as amended. When \<open>addAllAsync\<close> hands its promise to the caller, the mirror objects
  and \<open>documentByIdRef.current\<close> are what \<open>addAll\<close> of the same batch leaves (whether or
  not the index accepts the batch), and the index has not been touched. Every document of
  the batch whose key is not \<open>__proto__\<close> finds, under the key of its identity, a
  document of the batch with that key; it finds itself when no two documents of the
  batch have the same key.
\<close>

theorem addAllAsync_eager_merge:
  "objs (addAllAsync opts st documents) = objs (state_of (addAll svc opts st documents))
   \<and> documentByIdRef (addAllAsync opts st documents)
       = documentByIdRef (state_of (addAll svc opts st documents))
   \<and> mirrorStore (addAllAsync opts st documents)
       = mirrorStore (state_of (addAll svc opts st documents))
   \<and> miniSearch (addAllAsync opts st documents) = miniSearch st
   \<and> (\<forall>d \<in> set documents. keyOf opts d \<noteq> ''__proto__'' \<longrightarrow>
        (\<exists>d' \<in> set documents. keyOf opts d' = keyOf opts d
          \<and> mirrorStore (addAllAsync opts st documents) (keyOf opts d) = Some d'))
   \<and> (distinct (map (keyOf opts) documents) \<longrightarrow>
        (\<forall>d \<in> set documents. keyOf opts d \<noteq> ''__proto__'' \<longrightarrow>
           mirrorStore (addAllAsync opts st documents) (keyOf opts d) = Some d))"
proof -
  let ?ds = "filter (\<lambda>d. keyOf opts d \<noteq> ''__proto__'') documents"
  have m: "mirrorStore (addAllAsync opts st documents)
      = fold (\<lambda>d m. m(keyOf opts d \<mapsto> d)) ?ds (capturedStore st)"
    using mirror_mergeBatch(1) [of opts st documents] by (simp add: addAllAsync_def mirrorStore_def)
  have a: "objs (addAllAsync opts st documents) = objs (state_of (addAll svc opts st documents))"
    "documentByIdRef (addAllAsync opts st documents)
       = documentByIdRef (state_of (addAll svc opts st documents))"
    by (simp_all add: addAllAsync_def addAll_def Let_def state_of_afterIndex_id)
  then have b: "mirrorStore (addAllAsync opts st documents)
      = mirrorStore (state_of (addAll svc opts st documents))"
    by (simp add: mirrorStore_def)
  have c: "miniSearch (addAllAsync opts st documents) = miniSearch st"
    by (simp add: addAllAsync_def mergeBatch_def Let_def)
  have last: "\<exists>d' \<in> set documents. keyOf opts d' = keyOf opts d
      \<and> mirrorStore (addAllAsync opts st documents) (keyOf opts d) = Some d'"
    if "d \<in> set documents" "keyOf opts d \<noteq> ''__proto__''" for d
  proof -
    from that have "d \<in> set ?ds" by simp
    from fold_upd_last [OF this, of "keyOf opts" "capturedStore st"] show ?thesis
      by (auto simp: m)
  qed
  have own: "mirrorStore (addAllAsync opts st documents) (keyOf opts d) = Some d"
    if "distinct (map (keyOf opts) documents)" "d \<in> set documents" "keyOf opts d \<noteq> ''__proto__''" for d
  proof -
    from that have "d \<in> set ?ds" and "distinct (map (keyOf opts) ?ds)"
      by (simp_all add: distinct_map_filter)
    from fold_upd_distinct [OF this(2,1), of "capturedStore st"] show ?thesis
      by (simp add: m)
  qed
  from a b c last own show ?thesis
    by blast
qed

text \<open>
  A batch of the documents 1 and 2 on the empty initial state: each is in the Mirror
  Store under its key when \<open>addAllAsync\<close> has returned, and the index is still empty.
\<close>

theorem addAllAsync_eager_merge_witness:
  "mirrorStore (addAllAsync example_options example_initial
      [(IdNum (safeInteger 1), ''red fox''), (IdNum (safeInteger 2), ''blue dog'')])
     = mirrorStore (state_of (addAll example_index example_options example_initial
          [(IdNum (safeInteger 1), ''red fox''), (IdNum (safeInteger 2), ''blue dog'')]))
   \<and> miniSearch (addAllAsync example_options example_initial
        [(IdNum (safeInteger 1), ''red fox''), (IdNum (safeInteger 2), ''blue dog'')]) = []
   \<and> mirrorStore (addAllAsync example_options example_initial
        [(IdNum (safeInteger 1), ''red fox''), (IdNum (safeInteger 2), ''blue dog'')]) ''1''
       = Some (IdNum (safeInteger 1), ''red fox'')
   \<and> mirrorStore (addAllAsync example_options example_initial
        [(IdNum (safeInteger 1), ''red fox''), (IdNum (safeInteger 2), ''blue dog'')]) ''2''
       = Some (IdNum (safeInteger 2), ''blue dog'')"
proof -
  let ?ds = "[(IdNum (safeInteger 1), ''red fox''), (IdNum (safeInteger 2), ''blue dog'')]"
  have d: "distinct (map (keyOf example_options) ?ds)"
    by (simp add: example_defs)
  have k: "keyOf example_options (IdNum (safeInteger 1), ''red fox'') = ''1''"
    "keyOf example_options (IdNum (safeInteger 2), ''blue dog'') = ''2''"
    by (simp_all add: example_defs)
  have e: "miniSearch example_initial = []"
    by (simp add: example_defs initial_def)
  from addAllAsync_eager_merge [of example_options example_initial ?ds example_index] d
  have "mirrorStore (addAllAsync example_options example_initial ?ds)
        = mirrorStore (state_of (addAll example_index example_options example_initial ?ds))"
    and "miniSearch (addAllAsync example_options example_initial ?ds) = miniSearch example_initial"
    and "\<forall>d \<in> set ?ds. keyOf example_options d \<noteq> ''__proto__'' \<longrightarrow>
          mirrorStore (addAllAsync example_options example_initial ?ds) (keyOf example_options d) = Some d"
    by blast+
  then show ?thesis
    by (simp add: k e)
qed

section \<open>Mirror keys are strings\<close>




section \<open>\<open>removeAll\<close>\<close>

text \<open>
  What \<open>removeAll\<close> does. Without documents, when the index completes, the ref is given a
  new empty object; the object \<open>documentById\<close> refers to stays as it was. With documents
  and \<open>ignoreIfMissing\<close>, the call is the call without \<open>ignoreIfMissing\<close> on the documents
  for which reading their key from the object \<open>documentById\<close> refers to yields a truthy
  value: the documents that have an entry there, when no document has a key that is the
  name of a member of \<open>Object.prototype\<close> and the prototype has not been replaced.
\<close>

lemma removeAll_without_documents:
  assumes "indexRemoveAll svc (miniSearch st) None = Done ix"
  shows "\<exists>st'. removeAll_docs svc opts st None ignoreIfMissing = Returned st'
           \<and> miniSearch st' = ix \<and> mirrorObject st' = emptyObject
           \<and> documentById st' = documentById st
           \<and> (documentById st < nextObj st \<longrightarrow> capturedObject st' = capturedObject st)"
  using assms
  by (auto simp: removeAll_docs_def afterIndex_def mirrorObject_def capturedObject_def)

lemma removeAll_ignoreIfMissing:
  "removeAll_docs svc opts st (Some documents) True
     = removeAll_docs svc opts st
         (Some (filter (\<lambda>document. truthy (getProperty opts (capturedObject st) (keyOf opts document)))
            documents)) False"
  by (simp add: removeAll_docs_def capturedObject_def keyOf_def identityOf_def Let_def)

lemma removeAll_ignoreIfMissing_entries:
  assumes "prototype (capturedObject st) = None"
    and "\<forall>d \<in> set documents. ordinary_key (keyOf opts d)"
  shows "removeAll_docs svc opts st (Some documents) True
     = removeAll_docs svc opts st
         (Some (filter (\<lambda>document. capturedStore st (keyOf opts document) \<noteq> None) documents)) False"
proof -
  have "filter (\<lambda>document. truthy (getProperty opts (capturedObject st) (keyOf opts document))) documents
      = filter (\<lambda>document. capturedStore st (keyOf opts document) \<noteq> None) documents"
  proof (rule filter_cong [OF refl])
    fix d assume "d \<in> set documents"
    with assms(2) have "ordinary_key (keyOf opts d)" by simp
    from getProperty_entryOf [OF assms(1) this, of opts]
    show "truthy (getProperty opts (capturedObject st) (keyOf opts d))
        = (capturedStore st (keyOf opts d) \<noteq> None)"
      by (cases "capturedStore st (keyOf opts d)")
         (simp_all add: entryOf_def capturedStore_def capturedObject_def)
  qed
  then show ?thesis
    by (simp only: removeAll_ignoreIfMissing)
qed

text \<open>
  C7, on the code. After mounting with the document 1, \<open>removeAll()\<close> completes, the index
  is empty and the Mirror Store (the object of \<open>documentByIdRef.current\<close>) is empty. The
  object \<open>documentById\<close> refers to still holds the document. A following
  \<open>removeAll([document 1], {ignoreIfMissing: true})\<close>, made before the component renders,
  does not drop the document: it hands it to the index, which fails. A following
  \<open>addAll([document 2])\<close> instead leaves a Mirror Store that holds document 1 again,
  while the index holds document 2 only.
\<close>

theorem removeAll_keeps_captured_mirror:
  "thrown (removeAll_docs example_index example_options
      (state_of (useMiniSearch example_index example_options [] [(IdNum (safeInteger 1), ''red fox'')])) None False) = None
   \<and> miniSearch (state_of (removeAll_docs example_index example_options
      (state_of (useMiniSearch example_index example_options [] [(IdNum (safeInteger 1), ''red fox'')])) None False)) = []
   \<and> mirrorStore (state_of (removeAll_docs example_index example_options
      (state_of (useMiniSearch example_index example_options [] [(IdNum (safeInteger 1), ''red fox'')])) None False)) = Map.empty
   \<and> capturedStore (state_of (removeAll_docs example_index example_options
      (state_of (useMiniSearch example_index example_options [] [(IdNum (safeInteger 1), ''red fox'')])) None False)) ''1''
       = Some (IdNum (safeInteger 1), ''red fox'')
   \<and> thrown (removeAll_docs example_index example_options
        (state_of (removeAll_docs example_index example_options
          (state_of (useMiniSearch example_index example_options [] [(IdNum (safeInteger 1), ''red fox'')])) None False))
        (Some [(IdNum (safeInteger 1), ''red fox'')]) True) = Some (IndexOperationFailure ''not in the index'')
   \<and> miniSearch (state_of (addAll example_index example_options
        (state_of (removeAll_docs example_index example_options
          (state_of (useMiniSearch example_index example_options [] [(IdNum (safeInteger 1), ''red fox'')])) None False))
        [(IdNum (safeInteger 2), ''blue dog'')])) = [(IdNum (safeInteger 2), (IdNum (safeInteger 2), ''blue dog''))]
   \<and> mirrorStore (state_of (addAll example_index example_options
        (state_of (removeAll_docs example_index example_options
          (state_of (useMiniSearch example_index example_options [] [(IdNum (safeInteger 1), ''red fox'')])) None False))
        [(IdNum (safeInteger 2), ''blue dog'')])) ''1'' = Some (IdNum (safeInteger 1), ''red fox'')"
  by (simp add: hook_defs example_defs)

section \<open>\<open>addAll\<close> and repeated \<open>add\<close>\<close>

lemma add_Done:
  "keyOf opts d \<noteq> ''__proto__'' \<Longrightarrow> indexAdd svc (miniSearch st) d = Done ix \<Longrightarrow>
   add svc opts st d = Returned (st\<lparr>miniSearch := ix, objs := (objs st)(documentByIdRef st :=
        (objs st (documentByIdRef st))\<lparr>own := (own (objs st (documentByIdRef st)))(keyOf opts d \<mapsto> d)\<rparr>)\<rparr>)"
  by (simp add: add_def afterIndex_def Let_def keyOf_def identityOf_def setProperty_ordinary)

lemma add_Failed:
  "indexAdd svc (miniSearch st) d = Failed e ix \<Longrightarrow>
   thrown (add svc opts st d) = Some (IndexOperationFailure e)"
  by (simp add: add_def afterIndex_def Let_def)

lemma addEach_Done:
  "\<forall>d \<in> set ds. keyOf opts d \<noteq> ''__proto__'' \<Longrightarrow>
   indexAddEach svc (miniSearch st) ds = Done ix \<Longrightarrow>
   addEach svc opts st ds = Returned (st\<lparr>miniSearch := ix, objs := (objs st)(documentByIdRef st :=
        (objs st (documentByIdRef st))\<lparr>own :=
           fold (\<lambda>d b. b(keyOf opts d \<mapsto> d)) ds (own (objs st (documentByIdRef st)))\<rparr>)\<rparr>)"
proof (induction ds arbitrary: st)
  case Nil
  then show ?case by simp
next
  case (Cons d ds)
  from Cons.prems obtain ix1 where a: "indexAdd svc (miniSearch st) d = Done ix1"
    and b: "indexAddEach svc ix1 ds = Done ix"
    by (auto split: index_result.splits)
  from Cons.prems have k: "keyOf opts d \<noteq> ''__proto__''" and ks: "\<forall>d \<in> set ds. keyOf opts d \<noteq> ''__proto__''"
    by simp_all
  let ?s1 = "st\<lparr>miniSearch := ix1, objs := (objs st)(documentByIdRef st :=
        (objs st (documentByIdRef st))\<lparr>own := (own (objs st (documentByIdRef st)))(keyOf opts d \<mapsto> d)\<rparr>)\<rparr>"
  from b have "indexAddEach svc (miniSearch ?s1) ds = Done ix" by simp
  from Cons.IH [OF ks this]
  have "addEach svc opts ?s1 ds = Returned (?s1\<lparr>miniSearch := ix, objs := (objs ?s1)(documentByIdRef ?s1 :=
        (objs ?s1 (documentByIdRef ?s1))\<lparr>own :=
           fold (\<lambda>d b. b(keyOf opts d \<mapsto> d)) ds (own (objs ?s1 (documentByIdRef ?s1)))\<rparr>)\<rparr>)" .
  moreover have "?s1\<lparr>miniSearch := ix, objs := (objs ?s1)(documentByIdRef ?s1 :=
        (objs ?s1 (documentByIdRef ?s1))\<lparr>own :=
           fold (\<lambda>d b. b(keyOf opts d \<mapsto> d)) ds (own (objs ?s1 (documentByIdRef ?s1)))\<rparr>)\<rparr>
      = st\<lparr>miniSearch := ix, objs := (objs st)(documentByIdRef st :=
        (objs st (documentByIdRef st))\<lparr>own :=
           fold (\<lambda>d b. b(keyOf opts d \<mapsto> d)) (d # ds) (own (objs st (documentByIdRef st)))\<rparr>)\<rparr>"
    by (rule state.equality) (simp_all add: fun_eq_iff)
  ultimately show ?case
    using add_Done [OF k a] by (simp only: addEach.simps result.case)
qed

lemma addEach_Returned_index:
  "\<forall>d \<in> set ds. keyOf opts d \<noteq> ''__proto__'' \<Longrightarrow>
   addEach svc opts st ds = Returned st' \<Longrightarrow> \<exists>ix. indexAddEach svc (miniSearch st) ds = Done ix"
proof (induction ds arbitrary: st)
  case Nil
  then show ?case by simp
next
  case (Cons d ds)
  from Cons.prems have k: "keyOf opts d \<noteq> ''__proto__''" and ks: "\<forall>d \<in> set ds. keyOf opts d \<noteq> ''__proto__''"
    by simp_all
  show ?case
  proof (cases "indexAdd svc (miniSearch st) d")
    case (Done ix1)
    let ?s1 = "st\<lparr>miniSearch := ix1, objs := (objs st)(documentByIdRef st :=
        (objs st (documentByIdRef st))\<lparr>own := (own (objs st (documentByIdRef st)))(keyOf opts d \<mapsto> d)\<rparr>)\<rparr>"
    from add_Done [OF k Done] Cons.prems(2) have "addEach svc opts ?s1 ds = Returned st'"
      by (simp only: addEach.simps result.case)
    from Cons.IH [OF ks this] obtain ix where "indexAddEach svc (miniSearch ?s1) ds = Done ix" ..
    then have "indexAddEach svc ix1 ds = Done ix" by simp
    with Done show ?thesis by simp
  next
    case (Failed e ix1)
    from add_Failed [OF this, of opts] Cons.prems(2) show ?thesis
      by (cases "add svc opts st d") simp_all
  qed
qed

lemma addAll_Done:
  assumes "documentById st = documentByIdRef st" and "\<forall>d \<in> set ds. keyOf opts d \<noteq> ''__proto__''"
    and "indexAddAll svc (miniSearch st) ds = Done ix"
  shows "addAll svc opts st ds = Returned (st\<lparr>miniSearch := ix, objs := (objs st)(documentByIdRef st :=
        (objs st (documentByIdRef st))\<lparr>own :=
           fold (\<lambda>d b. b(keyOf opts d \<mapsto> d)) ds (own (objs st (documentByIdRef st)))\<rparr>)\<rparr>)"
  using assms(1,3) by (simp add: addAll_def mergeBatch_eq filter_ordinary [OF assms(2)] Let_def afterIndex_def)

lemma addAll_Returned_index:
  "addAll svc opts st ds = Returned st' \<Longrightarrow> \<exists>ix. indexAddAll svc (miniSearch st) ds = Done ix"
  by (cases "indexAddAll svc (miniSearch st) ds")
     (simp_all add: addAll_def mergeBatch_def Let_def afterIndex_def)

text \<open>
  The second document of the batch has the identity of the first, and the reference index
  refuses it. \<open>addAll\<close> has merged the whole batch by then, the third document included;
  repeated \<open>add\<close> stops at the second document and never writes the third.
\<close>

theorem addAll_differs_on_failure:
  "mirrorStore (state_of (addAll example_index example_options example_initial
       [(IdNum (safeInteger 1), ''red fox''), (IdNum (safeInteger 1), ''brown fox''),
        (IdNum (safeInteger 2), ''blue dog'')])) ''2''
     = Some (IdNum (safeInteger 2), ''blue dog'')
   \<and> mirrorStore (state_of (addEach example_index example_options example_initial
       [(IdNum (safeInteger 1), ''red fox''), (IdNum (safeInteger 1), ''brown fox''),
        (IdNum (safeInteger 2), ''blue dog'')])) ''2''
     = None"
  by (simp add: hook_defs example_defs)

text \<open>
  C8, as amended. For an index that adds a batch as it adds the documents one after the
  other, a call made while \<open>documentById\<close> is the object \<open>documentByIdRef.current\<close>
  refers to, and documents none of which has the key \<open>__proto__\<close>: \<open>addAll(documents)\<close>
  returns exactly when \<open>add\<close> on each document in list order returns, and the two end
  in the same state, so with the same Mirror Store and the same index. \<open>addAll\<close> is the
  merge of the whole batch followed by one call on the index, the batch call on the
  index as it was before: the Mirror Store holds the whole batch when that call is made,
  and still holds it when \<open>addAll\<close> is left, whether the index has completed or failed.
\<close>

theorem addAll_as_repeated_add:
  assumes "batch_add_contract svc" and "documentById st = documentByIdRef st"
    and "\<forall>d \<in> set documents. keyOf opts d \<noteq> ''__proto__''"
  shows "(\<forall>st'. addAll svc opts st documents = Returned st' \<longrightarrow>
            addEach svc opts st documents = Returned st')
       \<and> (\<forall>st'. addEach svc opts st documents = Returned st' \<longrightarrow>
            addAll svc opts st documents = Returned st')
       \<and> addAll svc opts st documents
           = afterIndex (mergeBatch opts st documents)
               (indexAddAll svc (miniSearch st) documents) (\<lambda>s. s)
       \<and> mirrorStore (mergeBatch opts st documents)
           = fold (\<lambda>d m. m(keyOf opts d \<mapsto> d)) documents (mirrorStore st)
       \<and> mirrorStore (state_of (addAll svc opts st documents))
           = fold (\<lambda>d m. m(keyOf opts d \<mapsto> d)) documents (mirrorStore st)"
proof (intro conjI allI impI)
  fix st'
  assume r: "addAll svc opts st documents = Returned st'"
  from addAll_Returned_index [OF r]
  obtain ix where ix: "indexAddAll svc (miniSearch st) documents = Done ix" ..
  with assms(1) have "indexAddEach svc (miniSearch st) documents = Done ix"
    by (simp add: batch_add_contract_def)
  from addEach_Done [OF assms(3) this] addAll_Done [OF assms(2,3) ix] r
  show "addEach svc opts st documents = Returned st'" by simp
next
  fix st'
  assume r: "addEach svc opts st documents = Returned st'"
  from addEach_Returned_index [OF assms(3) r]
  obtain ix where ix: "indexAddEach svc (miniSearch st) documents = Done ix" ..
  with assms(1) have "indexAddAll svc (miniSearch st) documents = Done ix"
    by (simp add: batch_add_contract_def)
  from addAll_Done [OF assms(2,3) this] addEach_Done [OF assms(3) ix] r
  show "addAll svc opts st documents = Returned st'" by simp
next
  show "addAll svc opts st documents
      = afterIndex (mergeBatch opts st documents) (indexAddAll svc (miniSearch st) documents) (\<lambda>s. s)"
    by (simp add: addAll_def Let_def addAll_merged(4))
next
  show m: "mirrorStore (mergeBatch opts st documents)
      = fold (\<lambda>d m. m(keyOf opts d \<mapsto> d)) documents (mirrorStore st)"
    using assms(2) mirror_mergeBatch(1) [of opts st documents]
    by (simp add: filter_ordinary [OF assms(3)] capturedStore_def mirrorStore_def)
  show "mirrorStore (state_of (addAll svc opts st documents))
      = fold (\<lambda>d m. m(keyOf opts d \<mapsto> d)) documents (mirrorStore st)"
    by (simp only: addAll_merged(3) m)
qed

text \<open>
  The batch of the documents 1 and 2 on the reference index: \<open>addAll\<close> returns, repeated
  \<open>add\<close> ends in the same result, and document 2 is in the Mirror Store.
\<close>

theorem addAll_as_repeated_add_witness:
  "thrown (addAll example_index example_options example_initial
       [(IdNum (safeInteger 1), ''red fox''), (IdNum (safeInteger 2), ''blue dog'')]) = None
   \<and> addEach example_index example_options example_initial
       [(IdNum (safeInteger 1), ''red fox''), (IdNum (safeInteger 2), ''blue dog'')]
     = addAll example_index example_options example_initial
       [(IdNum (safeInteger 1), ''red fox''), (IdNum (safeInteger 2), ''blue dog'')]
   \<and> mirrorStore (state_of (addAll example_index example_options example_initial
       [(IdNum (safeInteger 1), ''red fox''), (IdNum (safeInteger 2), ''blue dog'')])) ''2''
     = Some (IdNum (safeInteger 2), ''blue dog'')"
proof -
  let ?ds = "[(IdNum (safeInteger 1), ''red fox''), (IdNum (safeInteger 2), ''blue dog'')]"
  have t: "thrown (addAll example_index example_options example_initial ?ds) = None"
    by (simp add: hook_defs example_defs)
  then obtain st' where st': "addAll example_index example_options example_initial ?ds = Returned st'"
    by (cases "addAll example_index example_options example_initial ?ds") simp_all
  have b: "batch_add_contract example_index"
    unfolding example_index_def by (rule reference_index_batch)
  have f: "documentById example_initial = documentByIdRef example_initial"
    by (simp add: example_initial_def initial_def)
  have k: "\<forall>d \<in> set ?ds. keyOf example_options d \<noteq> ''__proto__''"
    by (simp add: example_defs)
  have k2: "keyOf example_options (IdNum (safeInteger 1), ''red fox'') = ''1''"
    "keyOf example_options (IdNum (safeInteger 2), ''blue dog'') = ''2''"
    by (simp_all add: example_defs)
  from addAll_as_repeated_add [OF b f k]
  have e: "\<forall>st'. addAll example_index example_options example_initial ?ds = Returned st' \<longrightarrow>
            addEach example_index example_options example_initial ?ds = Returned st'"
    and m: "mirrorStore (state_of (addAll example_index example_options example_initial ?ds))
           = fold (\<lambda>d m. m(keyOf example_options d \<mapsto> d)) ?ds (mirrorStore example_initial)"
    by blast+
  from e st' have "addEach example_index example_options example_initial ?ds = Returned st'"
    by blast
  moreover from m have "mirrorStore (state_of (addAll example_index example_options example_initial ?ds)) ''2''
     = Some (IdNum (safeInteger 2), ''blue dog'')"
    by (simp add: k2)
  ultimately show ?thesis
    using t by (simp only: st' simp_thms)
qed

section \<open>Coherence of the mirror and the index\<close>

lemma mirrors_empty: "mirrors opts I Map.empty Map.empty"
  by (simp add: mirrors_def)

lemma mirrors_upd:
  assumes inj: "inj_on toPropertyKey I" and m: "mirrors opts I m c" and d: "identityOf opts d \<in> I"
  shows "mirrors opts I (m(keyOf opts d \<mapsto> d)) (c(identityOf opts d \<mapsto> d))"
proof -
  have other: "toPropertyKey i \<noteq> keyOf opts d" if "c i = Some e" "i \<noteq> identityOf opts d" for i e
  proof -
    from m that have "i \<in> I" by (auto simp: mirrors_def)
    with inj d that show ?thesis by (auto simp: keyOf_def inj_on_def)
  qed
  have "dom (m(keyOf opts d \<mapsto> d)) = toPropertyKey ` dom (c(identityOf opts d \<mapsto> d))"
    using m by (simp add: mirrors_def keyOf_def)
  moreover have "\<forall>i e. (c(identityOf opts d \<mapsto> d)) i = Some e \<longrightarrow>
      (m(keyOf opts d \<mapsto> d)) (toPropertyKey i) = Some e"
    using m other by (auto simp: mirrors_def keyOf_def)
  moreover have "dom (c(identityOf opts d \<mapsto> d)) \<subseteq> I"
    using m d by (auto simp: mirrors_def)
  moreover have "\<forall>i e. (c(identityOf opts d \<mapsto> d)) i = Some e \<longrightarrow> identityOf opts e = i"
    using m by (auto simp: mirrors_def)
  ultimately show ?thesis
    unfolding mirrors_def by blast
qed

lemma mirrors_del:
  assumes inj: "inj_on toPropertyKey I" and m: "mirrors opts I m c" and i: "i \<in> I"
  shows "mirrors opts I (m(toPropertyKey i := None)) (c(i := None))"
proof -
  have other: "toPropertyKey j \<noteq> toPropertyKey i" if "j \<in> dom c" "j \<noteq> i" for j
  proof -
    from m that have "j \<in> I" by (auto simp: mirrors_def)
    with inj i that show ?thesis by (auto simp: inj_on_def)
  qed
  have d: "dom m = toPropertyKey ` dom c"
    using m by (simp add: mirrors_def)
  have "dom (m(toPropertyKey i := None)) = toPropertyKey ` dom (c(i := None))"
  proof
    show "dom (m(toPropertyKey i := None)) \<subseteq> toPropertyKey ` dom (c(i := None))"
      using d by auto
    show "toPropertyKey ` dom (c(i := None)) \<subseteq> dom (m(toPropertyKey i := None))"
      using d other by auto
  qed
  moreover have "\<forall>j e. (c(i := None)) j = Some e \<longrightarrow>
      (m(toPropertyKey i := None)) (toPropertyKey j) = Some e"
    using m other by (auto simp: mirrors_def split: if_splits)
  moreover have "dom (c(i := None)) \<subseteq> I"
    using m by (auto simp: mirrors_def)
  moreover have "\<forall>j e. (c(i := None)) j = Some e \<longrightarrow> identityOf opts e = j"
    using m by (auto simp: mirrors_def split: if_splits)
  ultimately show ?thesis
    unfolding mirrors_def by blast
qed

lemma mirrors_fold_upd:
  assumes "inj_on toPropertyKey I"
  shows "mirrors opts I m c \<Longrightarrow> \<forall>d \<in> set ds. identityOf opts d \<in> I \<Longrightarrow>
    mirrors opts I (fold (\<lambda>d b. b(keyOf opts d \<mapsto> d)) ds m)
      (fold (\<lambda>d c. c(identityOf opts d \<mapsto> d)) ds c)"
  by (induction ds arbitrary: m c) (simp_all add: mirrors_upd [OF assms])

lemma mirrors_fold_del:
  assumes "inj_on toPropertyKey I"
  shows "mirrors opts I m c \<Longrightarrow> \<forall>d \<in> set ds. identityOf opts d \<in> I \<Longrightarrow>
    mirrors opts I (fold (\<lambda>d b. b(toPropertyKey (identityOf opts d) := None)) ds m)
      (fold (\<lambda>d c. c(identityOf opts d := None)) ds c)"
  by (induction ds arbitrary: m c) (simp_all add: mirrors_del [OF assms])

lemma mirrors_lookup:
  assumes "mirrors opts I m c" and "m (toPropertyKey j) = Some d"
  shows "identityOf opts d \<in> I \<and> toPropertyKey (identityOf opts d) = toPropertyKey j"
proof -
  from assms have "toPropertyKey j \<in> toPropertyKey ` dom c"
    by (auto simp: mirrors_def)
  then obtain i e where i: "c i = Some e" "toPropertyKey i = toPropertyKey j"
    by auto
  from assms(1) i(1) have e: "m (toPropertyKey i) = Some e" "identityOf opts e = i" "i \<in> I"
    by (auto simp: mirrors_def)
  from e(1) i(2) assms(2) have "d = e" by simp
  with e i show ?thesis by simp
qed

lemma invariant_add:
  assumes c: "index_contract svc opts contents" and inj: "inj_on toPropertyKey I"
    and p: "\<forall>i \<in> I. toPropertyKey i \<noteq> ''__proto__''"
    and i: "mirror_invariant opts I contents st" and d: "identityOf opts d \<in> I"
    and r: "add svc opts st d = Returned st'"
  shows "mirror_invariant opts I contents st' \<and> documentById st' = documentById st \<and> documentByIdRef st' = documentByIdRef st"
proof -
  from p d have k: "keyOf opts d \<noteq> ''__proto__''"
    by (simp add: keyOf_def)
  from r obtain ix where ix: "indexAdd svc (miniSearch st) d = Done ix"
    by (cases "indexAdd svc (miniSearch st) d") (simp_all add: add_def afterIndex_def Let_def)
  from add_Done [OF k ix] r
  have st': "st' = st\<lparr>miniSearch := ix, objs := (objs st)(documentByIdRef st :=
        (objs st (documentByIdRef st))\<lparr>own := (own (objs st (documentByIdRef st)))(keyOf opts d \<mapsto> d)\<rparr>)\<rparr>"
    by simp
  from c ix have "contents ix = (contents (miniSearch st))(identityOf opts d \<mapsto> d)"
    by (simp add: index_contract_def)
  with mirrors_upd [OF inj conjunct1 [OF i [unfolded mirror_invariant_def]] d] i show ?thesis
    by (simp add: mirror_invariant_def st' mirrorStore_def mirrorObject_def)
qed

lemma invariant_addAll:
  assumes c: "index_contract svc opts contents" and inj: "inj_on toPropertyKey I"
    and p: "\<forall>i \<in> I. toPropertyKey i \<noteq> ''__proto__''"
    and i: "mirror_invariant opts I contents st" and d: "\<forall>d \<in> set ds. identityOf opts d \<in> I"
    and f: "documentById st = documentByIdRef st"
    and r: "addAll svc opts st ds = Returned st'"
  shows "mirror_invariant opts I contents st' \<and> documentById st' = documentByIdRef st'"
proof -
  from p d have k: "\<forall>d \<in> set ds. keyOf opts d \<noteq> ''__proto__''"
    by (simp add: keyOf_def)
  from r obtain ix where ix: "indexAddAll svc (miniSearch st) ds = Done ix"
    and st': "st' = (mergeBatch opts st ds)\<lparr>miniSearch := ix\<rparr>"
    by (auto simp: addAll_def afterIndex_def Let_def mergeBatch_def split: index_result.splits)
  from c ix have "contents ix = fold (\<lambda>d c. c(identityOf opts d \<mapsto> d)) ds (contents (miniSearch st))"
    by (simp add: index_contract_def)
  moreover have "mirrorStore st' = fold (\<lambda>d b. b(keyOf opts d \<mapsto> d)) ds (mirrorStore st)"
    using mirror_mergeBatch(1) [of opts st ds] f
    by (simp add: st' mirrorStore_def capturedStore_def filter_ordinary [OF k])
  moreover have "prototype (mirrorObject st') = prototype (mirrorObject st)"
    using mirror_mergeBatch(2) [of opts st ds] f
    by (simp add: st' mirrorObject_def capturedObject_def)
  moreover have "miniSearch st' = ix" "documentById st' = documentByIdRef st'"
    by (simp_all add: st' mergeBatch_def Let_def)
  ultimately show ?thesis
    using mirrors_fold_upd [OF inj conjunct1 [OF i [unfolded mirror_invariant_def]] d] i
    by (simp add: mirror_invariant_def)
qed

lemma invariant_remove_doc:
  assumes c: "index_contract svc opts contents" and inj: "inj_on toPropertyKey I"
    and i: "mirror_invariant opts I contents st" and d: "identityOf opts d \<in> I"
    and f: "documentById st = documentByIdRef st"
    and r: "remove_doc svc opts st d = Returned st'"
  shows "mirror_invariant opts I contents st' \<and> documentById st' = documentByIdRef st'"
proof -
  from r obtain ix where ix: "indexRemove svc (miniSearch st) (Document d) = Done ix"
    and st': "st' = st\<lparr>miniSearch := ix, objs := (objs st)(documentById st :=
        (objs st (documentById st))\<lparr>own := (own (objs st (documentById st)))
           (toPropertyKey (identityOf opts d) := None)\<rparr>),
        documentByIdRef := documentById st\<rparr>"
    by (auto simp: remove_doc_def afterIndex_def removeFromMap_def deleteProperty_def identityOf_def
        split: index_result.splits)
  from c ix have "contents ix = (contents (miniSearch st))(identityOf opts d := None)"
    by (simp add: index_contract_def)
  with mirrors_del [OF inj conjunct1 [OF i [unfolded mirror_invariant_def]] d] f i show ?thesis
    by (simp add: mirror_invariant_def st' mirrorStore_def mirrorObject_def)
qed

lemma invariant_removeById:
  assumes c: "index_contract svc opts contents" and inj: "inj_on toPropertyKey I"
    and i: "mirror_invariant opts I contents st"
    and o: "ordinary_key (toPropertyKey j)"
    and f: "documentById st = documentByIdRef st"
    and r: "removeById svc opts st j = Returned st' \<or> removeById svc opts st j = Threw (NotFound j') st'"
  shows "mirror_invariant opts I contents st' \<and> documentById st' = documentByIdRef st'"
proof (cases "own (objs st (documentById st)) (toPropertyKey j)")
  case None
  from i f have "prototype (objs st (documentById st)) = None"
    by (simp add: mirror_invariant_def mirrorObject_def)
  from getProperty_absent [OF None this o]
  have "getProperty opts (objs st (documentById st)) (toPropertyKey j) = Undefined" .
  with r have "st' = st" by (auto simp: removeById_def)
  with i f show ?thesis by simp
next
  case (Some d)
  with f have look: "mirrorStore st (toPropertyKey j) = Some d"
    by (simp add: mirrorStore_def)
  from mirrors_lookup [OF conjunct1 [OF i [unfolded mirror_invariant_def]] look]
  have d: "identityOf opts d \<in> I" and k: "toPropertyKey (identityOf opts d) = toPropertyKey j"
    by simp_all
  from getProperty_own [OF Some]
  have g: "getProperty opts (objs st (documentById st)) (toPropertyKey j) = Document d" .
  from r g obtain ix where ix: "indexRemove svc (miniSearch st) (Document d) = Done ix"
    and st': "st' = st\<lparr>miniSearch := ix, objs := (objs st)(documentById st :=
        (objs st (documentById st))\<lparr>own := (own (objs st (documentById st)))
           (toPropertyKey j := None)\<rparr>),
        documentByIdRef := documentById st\<rparr>"
    by (auto simp: removeById_def afterIndex_def removeFromMap_def deleteProperty_def
        split: index_result.splits)
  from c ix have "contents ix = (contents (miniSearch st))(identityOf opts d := None)"
    by (simp add: index_contract_def)
  with mirrors_del [OF inj conjunct1 [OF i [unfolded mirror_invariant_def]] d] f k i show ?thesis
    by (simp add: mirror_invariant_def st' mirrorStore_def mirrorObject_def)
qed

lemma invariant_removeAll_docs:
  assumes c: "index_contract svc opts contents" and inj: "inj_on toPropertyKey I"
    and i: "mirror_invariant opts I contents st" and d: "\<forall>d \<in> set ds. identityOf opts d \<in> I"
    and f: "documentById st = documentByIdRef st"
    and r: "removeAll_docs svc opts st (Some ds) b = Returned st'"
  shows "mirror_invariant opts I contents st' \<and> documentById st' = documentByIdRef st'"
proof -
  define ds' where "ds' = (if b then filter (\<lambda>document. truthy (getProperty opts (objs st (documentById st))
      (toPropertyKey (extractField opts document (idField opts))))) ds else ds)"
  have d': "\<forall>d \<in> set ds'. identityOf opts d \<in> I"
    using d by (simp add: ds'_def)
  have "removeAll_docs svc opts st (Some ds) b =
      afterIndex st (indexRemoveAll svc (miniSearch st) (Some ds'))
        (\<lambda>s. s\<lparr>objs := (objs s)(documentById s := removeManyFromMap (objs s (documentById s))
                 (map (\<lambda>doc. extractField opts doc (idField opts)) ds')),
               documentByIdRef := documentById s\<rparr>)"
    by (cases b) (simp_all add: removeAll_docs_def ds'_def Let_def)
  with r obtain ix where ix: "indexRemoveAll svc (miniSearch st) (Some ds') = Done ix"
    and st': "st' = st\<lparr>miniSearch := ix, objs := (objs st)(documentById st :=
        removeManyFromMap (objs st (documentById st))
          (map (\<lambda>doc. extractField opts doc (idField opts)) ds')),
        documentByIdRef := documentById st\<rparr>"
    by (auto simp: afterIndex_def split: index_result.splits)
  from c ix have "contents ix = fold (\<lambda>d c. c(identityOf opts d := None)) ds' (contents (miniSearch st))"
    by (simp add: index_contract_def)
  with mirrors_fold_del [OF inj conjunct1 [OF i [unfolded mirror_invariant_def]] d'] f i show ?thesis
    by (simp add: mirror_invariant_def st' mirrorStore_def mirrorObject_def own_removeManyFromMap)
qed

lemma invariant_removeAll_none:
  assumes c: "index_contract svc opts contents"
    and r: "removeAll_docs svc opts st None b = Returned st'"
  shows "mirror_invariant opts I contents st'"
proof -
  from r obtain ix where ix: "indexRemoveAll svc (miniSearch st) None = Done ix"
    and st': "st' = st\<lparr>miniSearch := ix, objs := (objs st)(nextObj st := emptyObject),
        nextObj := Suc (nextObj st), documentByIdRef := nextObj st\<rparr>"
    by (auto simp: removeAll_docs_def afterIndex_def split: index_result.splits)
  from c ix have "contents ix = Map.empty"
    by (simp add: index_contract_def)
  then show ?thesis
    by (simp add: mirror_invariant_def st' mirrorStore_def mirrorObject_def emptyObject_def mirrors_empty)
qed

lemma invariant_rerender: "mirror_invariant opts I contents (rerender st) = mirror_invariant opts I contents st"
  by (simp add: mirror_invariant_def rerender_def mirrorStore_def mirrorObject_def)

lemma calls_within_Cons:
  "calls_within opts I (c # cs) =
     ((\<forall>d \<in> set (documents_of c). identityOf opts d \<in> I)
      \<and> (\<forall>i \<in> set (lookups_of c). ordinary_key (toPropertyKey i))
      \<and> calls_within opts I cs)"
  by (auto simp: calls_within_def)

lemma rendered_tail: "rendered (c # cs) \<Longrightarrow> rendered cs"
  by (cases cs) simp_all

lemma rendered_after_clear: "rendered (c # cs) \<Longrightarrow> clears c \<Longrightarrow> cs = [] \<or> (\<exists>cs'. cs = Render # cs')"
  by (cases cs) simp_all

lemma add_not_NotFound: "add svc opts st d \<noteq> Threw (NotFound j) s"
  by (simp add: add_def Let_def afterIndex_not_NotFound)

lemma addAll_not_NotFound: "addAll svc opts st ds \<noteq> Threw (NotFound j) s"
  by (simp add: addAll_def Let_def afterIndex_not_NotFound)

lemma remove_doc_not_NotFound: "remove_doc svc opts st d \<noteq> Threw (NotFound j) s"
  by (simp add: remove_doc_def afterIndex_not_NotFound)

lemma removeAll_docs_not_NotFound: "removeAll_docs svc opts st ds b \<noteq> Threw (NotFound j) s"
  by (cases ds) (simp_all add: removeAll_docs_def Let_def afterIndex_not_NotFound)

lemma invariant_perform:
  assumes c: "index_contract svc opts contents" and inj: "inj_on toPropertyKey I"
    and p: "\<forall>i \<in> I. toPropertyKey i \<noteq> ''__proto__''"
    and i: "mirror_invariant opts I contents st"
    and d: "\<forall>d \<in> set (documents_of call). identityOf opts d \<in> I"
    and o: "\<forall>i \<in> set (lookups_of call). ordinary_key (toPropertyKey i)"
    and f: "documentById st = documentByIdRef st \<or> call = Render"
    and r: "perform svc opts st call = Returned st' \<or> perform svc opts st call = Threw (NotFound j) st'"
  shows "mirror_invariant opts I contents st' \<and> (documentById st' = documentByIdRef st' \<or> clears call)"
proof (cases call)
  case (Add doc)
  with r have "add svc opts st doc = Returned st'"
    by (simp add: add_not_NotFound)
  from invariant_add [OF c inj p i _ this] d f Add show ?thesis by simp
next
  case (AddAll docs)
  with r have "addAll svc opts st docs = Returned st'"
    by (simp add: addAll_not_NotFound)
  from invariant_addAll [OF c inj p i _ _ this] d f AddAll show ?thesis by simp
next
  case (Remove doc)
  with r have "remove_doc svc opts st doc = Returned st'"
    by (simp add: remove_doc_not_NotFound)
  from invariant_remove_doc [OF c inj i _ _ this] d f Remove show ?thesis by simp
next
  case (RemoveById k)
  with r have "removeById svc opts st k = Returned st' \<or> removeById svc opts st k = Threw (NotFound j) st'"
    by simp
  from invariant_removeById [OF c inj i _ _ this] o f RemoveById show ?thesis by simp
next
  case (RemoveAll docs b)
  with r have ret: "removeAll_docs svc opts st docs b = Returned st'"
    by (simp add: removeAll_docs_not_NotFound)
  show ?thesis
  proof (cases docs)
    case None
    from invariant_removeAll_none [OF c ret [unfolded None]] None RemoveAll show ?thesis by simp
  next
    case (Some ds)
    from invariant_removeAll_docs [OF c inj i _ _ ret [unfolded Some]] d f RemoveAll Some show ?thesis by simp
  qed
next
  case Render
  with r have "st' = rerender st" by simp
  moreover have "documentById (rerender st) = documentByIdRef (rerender st)"
    by (simp add: rerender_def)
  ultimately show ?thesis
    using i by (simp add: invariant_rerender)
qed

lemma invariant_run:
  assumes c: "index_contract svc opts contents" and inj: "inj_on toPropertyKey I"
    and p: "\<forall>i \<in> I. toPropertyKey i \<noteq> ''__proto__''"
  shows "mirror_invariant opts I contents st \<Longrightarrow> calls_within opts I cs \<Longrightarrow> rendered cs \<Longrightarrow>
    documentById st = documentByIdRef st \<or> (\<exists>cs'. cs = Render # cs') \<Longrightarrow>
    run svc opts st cs = Some st' \<Longrightarrow> mirror_invariant opts I contents st'"
proof (induction cs arbitrary: st)
  case Nil
  then show ?case by simp
next
  case (Cons call cs)
  from Cons.prems(5) obtain s j where
    q: "perform svc opts st call = Returned s \<or> perform svc opts st call = Threw (NotFound j) s"
    and rest: "run svc opts s cs = Some st'"
    by (auto split: result.splits error.splits)
  from Cons.prems(2) have d: "\<forall>d \<in> set (documents_of call). identityOf opts d \<in> I"
    and o: "\<forall>i \<in> set (lookups_of call). ordinary_key (toPropertyKey i)"
    and w: "calls_within opts I cs"
    by (simp_all add: calls_within_Cons)
  from Cons.prems(4) have f: "documentById st = documentByIdRef st \<or> call = Render"
    by auto
  from invariant_perform [OF c inj p Cons.prems(1) d o f q]
  have s: "mirror_invariant opts I contents s" and fs: "documentById s = documentByIdRef s \<or> clears call"
    by simp_all
  show ?case
  proof (cases "cs = []")
    case True
    with rest s show ?thesis by simp
  next
    case False
    with fs rendered_after_clear [OF Cons.prems(3)]
    have "documentById s = documentByIdRef s \<or> (\<exists>cs'. cs = Render # cs')"
      by auto
    from Cons.IH [OF s w rendered_tail [OF Cons.prems(3)] this rest] show ?thesis .
  qed
qed

lemma invariant_initial: "contents ix0 = Map.empty \<Longrightarrow> mirror_invariant opts I contents (initial ix0)"
  by (simp add: mirror_invariant_def initial_def mirrorStore_def mirrorObject_def emptyObject_def mirrors_empty)

lemma invariant_coherent: "mirror_invariant opts I contents st \<Longrightarrow> coherent contents st"
  by (simp add: mirror_invariant_def mirrors_def coherent_def)

lemma rendered_take: "rendered cs \<Longrightarrow> rendered (take n cs)"
proof (induction cs arbitrary: n rule: rendered.induct)
  case 1
  show ?case by simp
next
  case (2 c)
  show ?case by (cases n) simp_all
next
  case (3 c c' cs)
  show ?case
  proof (cases n)
    case 0
    then show ?thesis by simp
  next
    case (Suc m)
    show ?thesis
    proof (cases m)
      case 0
      with Suc show ?thesis by simp
    next
      case (Suc k)
      from "3.IH" [of "Suc k"] "3.prems" have "rendered (c' # take k cs)" by simp
      with "3.prems" \<open>n = Suc m\<close> Suc show ?thesis by simp
    qed
  qed
qed

lemma calls_within_take: "calls_within opts I cs \<Longrightarrow> calls_within opts I (take n cs)"
  using set_take_subset [of n cs] by (auto simp: calls_within_def)

text \<open>
  No call on the index fails in this sequence, and no \<open>removeAll()\<close> occurs in it. The
  number 1 and the string "1" are two identities of the index and one key of the mirror:
  after \<open>remove\<close> of the first document the index still holds the second, and the Mirror
  Store is empty.
\<close>

theorem coherence_lost_by_key_coercion:
  "run example_index example_options example_initial
     [Add (IdNum (safeInteger 1), ''red fox''), Add (IdStr ''1'', ''grey cat''),
      Remove (IdNum (safeInteger 1), ''red fox'')] \<noteq> None
   \<and> rendered [Add (IdNum (safeInteger 1), ''red fox''), Add (IdStr ''1'', ''grey cat''),
      Remove (IdNum (safeInteger 1), ''red fox'')]
   \<and> \<not> coherent map_of (the (run example_index example_options example_initial
     [Add (IdNum (safeInteger 1), ''red fox''), Add (IdStr ''1'', ''grey cat''),
      Remove (IdNum (safeInteger 1), ''red fox'')]))"
  by (simp add: hook_defs example_defs coherent_def)

text \<open>
  C1, as amended. Take an index that keeps the contract \<open>index_contract\<close> and is empty at
  the start, a set \<open>I\<close> of identities no two of which have the same property key and
  none of which has the key \<open>__proto__\<close>, and a sequence of \<open>add\<close>, \<open>addAll\<close>, \<open>remove\<close>,
  \<open>removeById\<close> and \<open>removeAll\<close> calls and renders, from the initial state of the hook,
  in which every document handed over has its identity in \<open>I\<close>, \<open>removeById\<close> is called
  with identities whose key is not the name of a member of \<open>Object.prototype\<close>, and
  the component renders after each \<open>removeAll()\<close> without documents before it makes
  another call. Then after each call up to which no call on the index has failed, the
  keys of the Mirror Store are the keys of the identities the index holds, and for each
  of these identities the Mirror Store has the document last added under it.
\<close>

theorem coherence_of_rendered_runs:
  assumes "index_contract svc opts contents" and "contents ix0 = Map.empty"
    and "inj_on toPropertyKey I" and "\<forall>i \<in> I. toPropertyKey i \<noteq> ''__proto__''"
    and "calls_within opts I cs" and "rendered cs"
  shows "\<forall>n st'. run svc opts (initial ix0) (take n cs) = Some st' \<longrightarrow> coherent contents st'"
proof (intro allI impI)
  fix n st'
  assume r: "run svc opts (initial ix0) (take n cs) = Some st'"
  have "mirror_invariant opts I contents st'"
    by (rule invariant_run [OF assms(1,3,4) invariant_initial [of contents ix0, OF assms(2)]
          calls_within_take [OF assms(5)] rendered_take [OF assms(6)] _ r])
       (simp add: initial_def)
  then show "coherent contents st'" by (rule invariant_coherent)
qed

text \<open>
  A sequence with every kind of call, a \<open>removeById\<close> that throws NotFound, and a render
  after \<open>removeAll()\<close>, on the reference index: coherence at its end and after its second
  call.
\<close>

theorem coherence_of_rendered_runs_witness:
  "run example_index example_options example_initial
     [AddAll [(IdNum (safeInteger 1), ''red fox''), (IdNum (safeInteger 2), ''blue dog'')],
      RemoveById (IdNum (safeInteger 1)),
      RemoveById (IdNum (safeInteger 7)), RemoveAll None False, Render,
      Add (IdNum (safeInteger 2), ''blue dog''),
      RemoveAll (Some [(IdNum (safeInteger 1), ''red fox''), (IdNum (safeInteger 2), ''blue dog'')]) True,
      Add (IdNum (safeInteger 1), ''red fox''), Remove (IdNum (safeInteger 1), ''red fox'')] \<noteq> None
   \<and> coherent map_of (the (run example_index example_options example_initial
     [AddAll [(IdNum (safeInteger 1), ''red fox''), (IdNum (safeInteger 2), ''blue dog'')],
      RemoveById (IdNum (safeInteger 1)),
      RemoveById (IdNum (safeInteger 7)), RemoveAll None False, Render,
      Add (IdNum (safeInteger 2), ''blue dog''),
      RemoveAll (Some [(IdNum (safeInteger 1), ''red fox''), (IdNum (safeInteger 2), ''blue dog'')]) True,
      Add (IdNum (safeInteger 1), ''red fox''), Remove (IdNum (safeInteger 1), ''red fox'')]))
   \<and> coherent map_of (the (run example_index example_options example_initial
     [AddAll [(IdNum (safeInteger 1), ''red fox''), (IdNum (safeInteger 2), ''blue dog'')],
      RemoveById (IdNum (safeInteger 1))]))"
proof -
  let ?cs = "[AddAll [(IdNum (safeInteger 1), ''red fox''), (IdNum (safeInteger 2), ''blue dog'')],
      RemoveById (IdNum (safeInteger 1)),
      RemoveById (IdNum (safeInteger 7)), RemoveAll None False, Render,
      Add (IdNum (safeInteger 2), ''blue dog''),
      RemoveAll (Some [(IdNum (safeInteger 1), ''red fox''), (IdNum (safeInteger 2), ''blue dog'')]) True,
      Add (IdNum (safeInteger 1), ''red fox''), Remove (IdNum (safeInteger 1), ''red fox'')]"
  have runs: "run example_index example_options example_initial ?cs \<noteq> None"
    by (simp add: hook_defs example_defs)
  then obtain st' where st': "run example_index example_options (initial []) (take 9 ?cs) = Some st'"
    by (auto simp: example_initial_def)
  have runs2: "run example_index example_options example_initial (take 2 ?cs) \<noteq> None"
    by (simp add: hook_defs example_defs)
  then obtain st2 where st2: "run example_index example_options (initial []) (take 2 ?cs) = Some st2"
    by (auto simp: example_initial_def)
  have inj: "inj_on toPropertyKey {IdNum (safeInteger 1), IdNum (safeInteger 2)}"
    by (simp add: example_defs)
  have plain: "\<forall>i \<in> {IdNum (safeInteger 1), IdNum (safeInteger 2)}. toPropertyKey i \<noteq> ''__proto__''"
    by (simp add: example_defs)
  have within: "calls_within example_options {IdNum (safeInteger 1), IdNum (safeInteger 2)} ?cs"
    by (simp add: calls_within_def ordinary_key_def objectPrototypeNames_def example_defs)
  have r: "rendered ?cs"
    by simp
  have c: "index_contract example_index example_options map_of"
    unfolding example_index_def by (rule reference_index_contract)
  have e: "map_of ([] :: (ident \<times> ident \<times> string) list) = Map.empty"
    by simp
  from coherence_of_rendered_runs [OF c e inj plain within r] st' st2
  have "coherent map_of st'" and "coherent map_of st2"
    by blast+
  with runs st' st2 show ?thesis
    by (simp add: example_initial_def)
qed

end
